theory Spec2Isabelle
  imports Complex_Main "HOL-Library.Multiset" "HOL-Library.Sublist"
begin

section \<open>Dayflow Sync: the model\<close>

text \<open>
  A shallow embedding of \<^verbatim>\<open>dayflow-sync.js\<close>: the day-boundary functions, the record
  aggregation and the body of the per-day sync loop. Each definition carries the name of
  the JavaScript function it embeds.
\<close>

subsection \<open>Dates\<close>

text \<open>
  A JavaScript \<^verbatim>\<open>Date\<close> is a count of milliseconds that the program only ever reads
  and changes through local-time fields (\<^verbatim>\<open>setHours\<close>, date-fns \<^verbatim>\<open>addDays\<close>,
  \<^verbatim>\<open>subDays\<close>, \<^verbatim>\<open>format\<close> and the \<^verbatim>\<open>Date\<close> constructor on a string without
  zone). The model therefore counts an instant in milliseconds of local wall-clock time
  from local midnight of the epoch date, and takes every \<^verbatim>\<open>Date\<close> to be a valid one
  (never \<^verbatim>\<open>Invalid Date\<close>, and far from the ends of the range of \<^verbatim>\<open>Date\<close>).

  Where clocks are set forward, an interval of local readings does not exist, and a
  \<^verbatim>\<open>Date\<close> made from such a reading lies later; this is modelled below, with the zone
  as an argument, for the one place where the program shifts an arbitrary time of day by
  whole days (\<^verbatim>\<open>subDays(today, i)\<close> in \<^verbatim>\<open>calculateDateRange\<close>). Everywhere else the
  program sets or shifts four o'clock, a reading taken to exist on every date, so that
  \<open>setHours\<close>, \<open>addDays\<close> and \<open>subDays\<close> give the reading asked for. An hour that
  repeats where clocks are set back is read by its local reading on both passes.

  A \<^verbatim>\<open>yyyy-MM-dd\<close> string names a calendar date. \<^verbatim>\<open>format(d, 'yyyy-MM-dd')\<close>
  writes the local calendar date of an instant and \<^verbatim>\<open>new Date(s + 'T04:00:00')\<close>
  reads it back; the model represents such a string by the calendar date it names,
  counted in days from the epoch date.
\<close>

type_synonym instant = int
type_synonym day_string = int

definition MS_PER_HOUR :: int where
  "MS_PER_HOUR = 3600000"

definition MS_PER_DAY :: int where
  "MS_PER_DAY = 86400000"

text \<open>\<^verbatim>\<open>d.setHours(h, m, s, ms)\<close>: the same local calendar date, the time of day replaced.\<close>

definition setHours :: "instant \<Rightarrow> int \<Rightarrow> int \<Rightarrow> int \<Rightarrow> int \<Rightarrow> instant" where
  "setHours d h m s ms =
     (d div MS_PER_DAY) * MS_PER_DAY + h * MS_PER_HOUR + m * 60000 + s * 1000 + ms"

text \<open>date-fns \<^verbatim>\<open>addDays\<close> and \<^verbatim>\<open>subDays\<close>: the same local time of day, \<open>n\<close> calendar days away.\<close>

definition addDays :: "instant \<Rightarrow> int \<Rightarrow> instant" where
  "addDays d n = d + n * MS_PER_DAY"

definition subDays :: "instant \<Rightarrow> int \<Rightarrow> instant" where
  "subDays d n = addDays d (- n)"

text \<open>date-fns \<^verbatim>\<open>format(d, 'yyyy-MM-dd')\<close>.\<close>

definition format_yyyy_MM_dd :: "instant \<Rightarrow> day_string" where
  "format_yyyy_MM_dd d = d div MS_PER_DAY"

text \<open>\<^verbatim>\<open>new Date(dayString + 'T04:00:00')\<close>: four o'clock local time on that date.\<close>

definition Date_T04 :: "day_string \<Rightarrow> instant" where
  "Date_T04 dayString = dayString * MS_PER_DAY + 4 * MS_PER_HOUR"

text \<open>
  \<^verbatim>\<open>isDayComplete(dayString)\<close>; the reading of the clock (\<^verbatim>\<open>new Date()\<close>) is the
  second argument.
\<close>

definition isDayComplete :: "day_string \<Rightarrow> instant \<Rightarrow> bool" where
  "isDayComplete dayString now =
     (let dayDate = Date_T04 dayString;
          nextDay4AM = addDays dayDate 1
      in now \<ge> nextDay4AM)"

record day_info =
  dayString :: day_string
  startOfDay :: instant
  endOfDay :: instant

definition getDayInfoFor4AMBoundary :: "instant \<Rightarrow> day_info" where
  "getDayInfoFor4AMBoundary date =
     (let fourAMToday = setHours date 4 0 0 0
      in if date < fourAMToday
         then (let startOfDay = subDays fourAMToday 1
               in \<lparr>dayString = format_yyyy_MM_dd startOfDay,
                   startOfDay = startOfDay,
                   endOfDay = fourAMToday\<rparr>)
         else \<lparr>dayString = format_yyyy_MM_dd fourAMToday,
               startOfDay = fourAMToday,
               endOfDay = addDays fourAMToday 1\<rparr>)"

text \<open>
  \<^verbatim>\<open>if (!dates.includes(x)) dates.push(x)\<close>, and the insertion of \<open>x\<close> into a
  \<^verbatim>\<open>Set\<close>, which keeps its elements in insertion order.
\<close>

definition push_new :: "'a list \<Rightarrow> 'a \<Rightarrow> 'a list" where
  "push_new dates x = (if x \<in> set dates then dates else dates @ [x])"

text \<open>\<^verbatim>\<open>[...new Set(xs)]\<close>.\<close>

definition spread_Set :: "'a list \<Rightarrow> 'a list" where
  "spread_Set xs = foldl push_new [] xs"

text \<open>
  A zone is the list of its skipped intervals of local readings, each with its first
  reading and its length: in a zone that sets its clocks from 03:00 to 04:00 on a date,
  the readings from 03:00 to 03:59 of that date do not exist. \<open>land z t\<close> is the
  \<^verbatim>\<open>Date\<close> that JavaScript makes of the local reading \<open>t\<close>: a skipped reading is
  read with the offset from before the change, which is the reading later by the length
  of the interval (03:30 becomes 04:30).
\<close>

type_synonym zone = "(int \<times> int) list"

definition land :: "zone \<Rightarrow> int \<Rightarrow> instant" where
  "land z t =
     (case find (\<lambda>(g, len). g \<le> t \<and> t < g + len) z of
        None \<Rightarrow> t
      | Some (g, len) \<Rightarrow> t + len)"

text \<open>
  date-fns \<^verbatim>\<open>subDays(date, n)\<close> on any \<^verbatim>\<open>Date\<close>: for \<open>n = 0\<close> the date itself;
  otherwise \<^verbatim>\<open>setDate(getDate() - n)\<close>, the \<^verbatim>\<open>Date\<close> made of the same time of day
  \<open>n\<close> calendar days earlier.
\<close>

definition subDays_in :: "zone \<Rightarrow> instant \<Rightarrow> int \<Rightarrow> instant" where
  "subDays_in z d n = (if n = 0 then d else land z (subDays d n))"

text \<open>
  \<^verbatim>\<open>calculateDateRange(days)\<close>; the zone of the machine is the first argument and the
  reading of the clock (\<^verbatim>\<open>today\<close>) the third. The loop
  \<^verbatim>\<open>for (let i = 0; i < days; i++)\<close> runs over \<open>[0..<days]\<close>.
\<close>

definition calculateDateRange :: "zone \<Rightarrow> nat \<Rightarrow> instant \<Rightarrow> day_string list" where
  "calculateDateRange z days today =
     spread_Set
       (foldl (\<lambda>dates i.
                 let date = subDays_in z today (int i);
                     dayInfo = getDayInfoFor4AMBoundary date
                 in push_new dates (dayString dayInfo))
          [] [0..<days])"

subsection \<open>The words of the specification about days\<close>

text \<open>The calendar date of an instant, and the boundary instant of a calendar date.\<close>

definition calendar_date :: "instant \<Rightarrow> int" where
  "calendar_date t = t div 86400000"

definition boundary_instant :: "int \<Rightarrow> instant" where
  "boundary_instant d = d * 86400000 + 4 * 3600000"

text \<open>Deduplication that keeps the first occurrence of every element, in order.\<close>

fun first_seen :: "'a list \<Rightarrow> 'a list" where
  "first_seen [] = []"
| "first_seen (x # xs) = x # first_seen (removeAll x xs)"

text \<open>The identifier that \<open>resolveDay\<close> gives to the reference instant less \<open>i\<close> whole days.\<close>

definition day_at_offset :: "zone \<Rightarrow> instant \<Rightarrow> nat \<Rightarrow> day_string" where
  "day_at_offset z today i =
     dayString (getDayInfoFor4AMBoundary (subDays_in z today (int i)))"

text \<open>
  The zones for which the ordering of the days is stated: every skipped interval is
  real, a reading in it and the reading it becomes lie on one calendar date, and four
  o'clock is not skipped.
\<close>

definition regular_zone :: "zone \<Rightarrow> bool" where
  "regular_zone z =
     list_all (\<lambda>(g, len).
                 0 < len \<and> g div 86400000 = (g + 2 * len - 1) div 86400000
                 \<and> (boundary_instant (g div 86400000) < g
                      \<or> g + len \<le> boundary_instant (g div 86400000)))
       z"

text \<open>
  Helsinki in spring 2024: on 31 March (day 19813) the clocks went from 03:00 to 04:00.
\<close>

definition helsinki_2024 :: zone where
  "helsinki_2024 = [(19813 * 86400000 + 3 * 3600000, 3600000)]"

subsection \<open>Rows of the data source\<close>

text \<open>
  The metadata column of a timeline card is JSON text, read with \<^verbatim>\<open>JSON.parse\<close>. The
  model keeps of the text what \<^verbatim>\<open>parseMetadata\<close> can tell apart: a column that is
  \<^verbatim>\<open>NULL\<close> or empty (falsy); a text on which the \<^verbatim>\<open>try\<close> block throws, with the
  message of the error; and a text that parses, with the value of \<^verbatim>\<open>distractions\<close>
  when it is an array and the value of \<^verbatim>\<open>appSites\<close> when it is present. The two
  slots of \<^verbatim>\<open>appSites\<close> hold strings or are missing.
\<close>

record distraction =
  startTime :: string
  endTime :: string
  d_title :: string
  d_summary :: "string option"

record app_sites =
  primary :: "string option"
  secondary :: "string option"

datatype metadata_json =
    NoMetadata
  | Unparsable string
  | Payload "distraction list option" "app_sites option"

text \<open>
  A row of \<^verbatim>\<open>timeline_cards\<close>, with the columns that the aggregation and the sync
  decision read (\<^verbatim>\<open>start\<close> and \<^verbatim>\<open>end\<close> are the display times \<open>card_start\<close> and
  \<open>card_end\<close>); the columns that only the rendering of the note body prints are left out.
\<close>

record card =
  day :: day_string
  is_deleted :: int
  card_start :: string
  card_end :: string
  start_ts :: int
  end_ts :: int
  title :: "string option"
  category :: "string option"
  subcategory :: "string option"
  metadata :: metadata_json

text \<open>A row of \<^verbatim>\<open>journal_entries\<close>, with the columns the front matter reads.\<close>

record journal_entry =
  j_day :: day_string
  status :: "string option"

subsection \<open>Durations\<close>

text \<open>
  \<^verbatim>\<open>Math.round\<close>: the integer closest to \<open>x\<close>, and of two equally close integers the
  one towards \<open>+\<infinity>\<close>. Timestamps are whole seconds, and for a whole number of seconds
  the floating-point quotient by 60 rounds as the exact quotient does, so the quotient is
  taken in the reals.
\<close>

definition Math_round :: "real \<Rightarrow> int" where
  "Math_round x = (if x - of_int \<lfloor>x\<rfloor> < 1 / 2 then \<lfloor>x\<rfloor> else \<lfloor>x\<rfloor> + 1)"

definition calculateDuration :: "int \<Rightarrow> int \<Rightarrow> int" where
  "calculateDuration startTs endTs = Math_round (of_int (endTs - startTs) / 60)"

definition calculateTotalMinutes :: "card list \<Rightarrow> int" where
  "calculateTotalMinutes cards =
     foldl (\<lambda>total card. total + calculateDuration (start_ts card) (end_ts card)) 0 cards"

text \<open>A card that lasts from \<open>s\<close> to \<open>e\<close> seconds, for examples.\<close>

definition card_from_to :: "int \<Rightarrow> int \<Rightarrow> card" where
  "card_from_to s e =
     \<lparr>day = 0, is_deleted = 0, card_start = ''9:00 AM'', card_end = ''9:30 AM'',
      start_ts = s, end_ts = e, title = Some ''Work'', category = Some ''Work'',
      subcategory = None, metadata = NoMetadata\<rparr>"

subsection \<open>Metadata\<close>

record parsed_metadata =
  distractions :: "distraction list"
  appSites :: app_sites

text \<open>The empty object \<^verbatim>\<open>{}\<close> read as \<^verbatim>\<open>appSites\<close>: both slots are \<^verbatim>\<open>undefined\<close>.\<close>

definition no_app_sites :: app_sites where
  "no_app_sites = \<lparr>primary = None, secondary = None\<rparr>"

text \<open>
  \<^verbatim>\<open>parseMetadata(metadataJson)\<close>: the lines written with \<^verbatim>\<open>console.warn\<close>, and the
  value returned.
\<close>

definition parseMetadata :: "metadata_json \<Rightarrow> string list \<times> parsed_metadata" where
  "parseMetadata metadataJson =
     (case metadataJson of
        NoMetadata \<Rightarrow> ([], \<lparr>distractions = [], appSites = no_app_sites\<rparr>)
      | Payload ds sites \<Rightarrow>
          ([], \<lparr>distractions = (case ds of Some a \<Rightarrow> a | None \<Rightarrow> []),
                appSites = (case sites of Some a \<Rightarrow> a | None \<Rightarrow> no_app_sites)\<rparr>)
      | Unparsable message \<Rightarrow>
          ([''Failed to parse metadata: '' @ message],
           \<lparr>distractions = [], appSites = no_app_sites\<rparr>))"

text \<open>\<^verbatim>\<open>.filter(Boolean)\<close> on strings that may be missing: the non-empty strings stay.\<close>

definition filter_Boolean :: "string option list \<Rightarrow> string list" where
  "filter_Boolean xs =
     List.map_filter (\<lambda>x. case x of None \<Rightarrow> None | Some s \<Rightarrow> if s = [] then None else Some s) xs"

record logged_distraction =
  entry :: distraction
  cardStart :: string
  cardEnd :: string

definition extractAllDistractions :: "card list \<Rightarrow> logged_distraction list" where
  "extractAllDistractions cards =
     foldl (\<lambda>allDistractions card.
              let metadata = snd (parseMetadata (metadata card))
              in if distractions metadata \<noteq> []
                 then allDistractions @
                   map (\<lambda>d. \<lparr>entry = d, cardStart = card_start card, cardEnd = card_end card\<rparr>)
                     (distractions metadata)
                 else allDistractions)
       [] cards"

subsection \<open>Objects used as dictionaries\<close>

text \<open>
  \<^verbatim>\<open>appStats\<close> is an ordinary object \<^verbatim>\<open>{}\<close> whose keys are application names. The
  model keeps its own properties in the order of their creation. Reading
  \<^verbatim>\<open>appStats[app]\<close> finds an own property or, failing that, a property inherited from
  \<^verbatim>\<open>Object.prototype\<close>, whose property names are listed here; each inherited value is
  a function or an object, hence truthy.
\<close>

type_synonym 'v js_object = "(string \<times> 'v) list"

definition Object_prototype_names :: "string list" where
  "Object_prototype_names =
     [''constructor'', ''__defineGetter__'', ''__defineSetter__'', ''hasOwnProperty'',
      ''__lookupGetter__'', ''__lookupSetter__'', ''isPrototypeOf'',
      ''propertyIsEnumerable'', ''toString'', ''valueOf'', ''__proto__'',
      ''toLocaleString'']"

definition has_own :: "'v js_object \<Rightarrow> string \<Rightarrow> bool" where
  "has_own obj k = (k \<in> set (map fst obj))"

definition inherited :: "string \<Rightarrow> bool" where
  "inherited k = (k \<in> set Object_prototype_names)"

text \<open>
  \<^verbatim>\<open>Object.entries\<close> lists the own properties whose key is an array index (the decimal
  numeral, without leading zero, of an integer below \<open>2\<^sup>3\<^sup>2 - 1\<close>) first, in ascending
  numeric order, and the other keys after them in the order of their creation.
\<close>

definition decimal_value :: "string \<Rightarrow> int" where
  "decimal_value s = foldl (\<lambda>n c. 10 * n + (of_char c - 48)) 0 s"

definition is_array_index :: "string \<Rightarrow> bool" where
  "is_array_index s =
     (s \<noteq> [] \<and> list_all (\<lambda>c. c \<in> set ''0123456789'') s
      \<and> (s = ''0'' \<or> hd s \<noteq> CHR ''0'') \<and> decimal_value s < 4294967295)"

definition Object_entries :: "'v js_object \<Rightarrow> (string \<times> 'v) list" where
  "Object_entries obj =
     sort_key (\<lambda>p. decimal_value (fst p)) (filter (\<lambda>p. is_array_index (fst p)) obj)
     @ filter (\<lambda>p. \<not> is_array_index (fst p)) obj"

subsection \<open>Application usage\<close>

record app_stat =
  sessions :: nat
  totalMinutes :: int

record app_usage = app_stat +
  app :: string

text \<open>
  The body of the inner \<^verbatim>\<open>forEach\<close> of \<^verbatim>\<open>aggregateAppUsage\<close>, for the
  application \<open>name\<close> (\<^verbatim>\<open>app\<close> in the source). When
  \<^verbatim>\<open>appStats[app]\<close> is falsy a new own property is created; the two \<^verbatim>\<open>+=\<close> then
  change the object that \<^verbatim>\<open>appStats[app]\<close> reads, which for an inherited name is not a
  property of \<^verbatim>\<open>appStats\<close>.
\<close>

definition count_app :: "int \<Rightarrow> app_stat js_object \<Rightarrow> string \<Rightarrow> app_stat js_object" where
  "count_app duration appStats name =
     (let appStats1 =
            (if \<not> (has_own appStats name \<or> inherited name)
             then appStats @ [(name, \<lparr>sessions = 0, totalMinutes = 0\<rparr>)]
             else appStats)
      in map (\<lambda>(k, stats).
                if k = name
                then (k, stats\<lparr>sessions := sessions stats + 1,
                               totalMinutes := totalMinutes stats + duration\<rparr>)
                else (k, stats))
           appStats1)"

text \<open>
  \<^verbatim>\<open>.sort((a, b) => b[1].totalMinutes - a[1].totalMinutes)\<close>: a stable sort, by
  descending total.
\<close>

definition sort_by_totalMinutes_desc :: "(string \<times> app_stat) list \<Rightarrow> (string \<times> app_stat) list" where
  "sort_by_totalMinutes_desc entries = sort_key (\<lambda>p. - totalMinutes (snd p)) entries"

definition aggregateAppUsage :: "card list \<Rightarrow> app_usage list" where
  "aggregateAppUsage cards =
     (let appStats =
            foldl (\<lambda>appStats card.
                     let metadata = snd (parseMetadata (metadata card));
                         duration = calculateDuration (start_ts card) (end_ts card)
                     in foldl (count_app duration) appStats
                          (filter_Boolean
                             [primary (appSites metadata), secondary (appSites metadata)]))
              [] cards
      in map (\<lambda>(name, stats).
                \<lparr>sessions = sessions stats, totalMinutes = totalMinutes stats, app = name\<rparr>)
           (sort_by_totalMinutes_desc (Object_entries appStats)))"

text \<open>A card of \<open>m\<close> minutes whose metadata names the two applications, for examples.\<close>

definition card_with_apps :: "int \<Rightarrow> string option \<Rightarrow> string option \<Rightarrow> card" where
  "card_with_apps m p s =
     (card_from_to 0 (60 * m))
       \<lparr>metadata := Payload None (Some \<lparr>primary = p, secondary = s\<rparr>)\<rparr>"

subsection \<open>The words of the specification about application usage\<close>

text \<open>
  The application identifiers that a card names: those of the primary and the secondary
  slot of its metadata that are present and not empty.
\<close>

definition named_apps :: "card \<Rightarrow> string list" where
  "named_apps c =
     (case metadata c of
        Payload ds (Some sites) \<Rightarrow>
          filter (\<lambda>a. a \<noteq> [])
            (concat (map (\<lambda>x. case x of None \<Rightarrow> [] | Some a \<Rightarrow> [a])
               [primary sites, secondary sites]))
      | _ \<Rightarrow> [])"

text \<open>Every naming of an application by a card, with the minutes of the card.\<close>

definition app_mentions :: "card list \<Rightarrow> (string \<times> int) list" where
  "app_mentions cards =
     concat (map (\<lambda>c. map (\<lambda>a. (a, calculateDuration (start_ts c) (end_ts c))) (named_apps c))
       cards)"

text \<open>
  The usage of application \<open>a\<close>: one session for each naming, and the minutes of each
  naming added up.
\<close>

definition usage_of :: "(string \<times> int) list \<Rightarrow> string \<Rightarrow> app_usage" where
  "usage_of ms a =
     \<lparr>sessions = length (filter (\<lambda>m. fst m = a) ms),
      totalMinutes = sum_list (map snd (filter (\<lambda>m. fst m = a) ms)),
      app = a\<rparr>"

text \<open>
  The usage list as the specification words it: the applications in the order of their
  first appearance, sorted by descending total, ties left in that order.
\<close>

definition applicationUsage_spec :: "card list \<Rightarrow> app_usage list" where
  "applicationUsage_spec cards =
     sort_key (\<lambda>u. - totalMinutes u)
       (map (usage_of (app_mentions cards)) (first_seen (map fst (app_mentions cards))))"

text \<open>
  The order of the keys of an object: the array indices ascending, then the other names
  in the order of their first appearance.
\<close>

definition own_key_order :: "string list \<Rightarrow> string list" where
  "own_key_order names =
     sort_key decimal_value (filter is_array_index names)
     @ filter (\<lambda>a. \<not> is_array_index a) names"

definition applicationUsage_by_key_order :: "card list \<Rightarrow> app_usage list" where
  "applicationUsage_by_key_order cards =
     sort_key (\<lambda>u. - totalMinutes u)
       (map (usage_of (app_mentions cards))
          (own_key_order (first_seen (map fst (app_mentions cards)))))"

text \<open>
  Two notions for the proofs: one step of the counting on a naming, and the statistics of
  an application without its name.
\<close>

definition count_mention :: "app_stat js_object \<Rightarrow> string \<times> int \<Rightarrow> app_stat js_object" where
  "count_mention appStats m = count_app (snd m) appStats (fst m)"

definition stat_of :: "(string \<times> int) list \<Rightarrow> string \<Rightarrow> app_stat" where
  "stat_of ms a =
     \<lparr>sessions = length (filter (\<lambda>m. fst m = a) ms),
      totalMinutes = sum_list (map snd (filter (\<lambda>m. fst m = a) ms))\<rparr>"

subsection \<open>Existing notes\<close>

text \<open>
  The note of a day is the file \<^verbatim>\<open>Dayflow_<dayString>.md\<close> of the output directory, so
  the directory is a map from days to files. A file that exists may still refuse to be
  read. Characters are the code units below 256.
\<close>

record note_file =
  readable :: bool
  content :: string

type_synonym directory = "day_string \<Rightarrow> note_file option"

text \<open>\<^verbatim>\<open>findExistingNoteByDay\<close> returns the path when \<^verbatim>\<open>fs.access\<close> finds the file.\<close>

definition findExistingNoteByDay :: "day_string \<Rightarrow> directory \<Rightarrow> bool" where
  "findExistingNoteByDay dayStr directory = (directory dayStr \<noteq> None)"

text \<open>
  The pattern \<^verbatim>\<open>/created_at:\s*['"]?([^'"\n]+)['"]?/\<close>. \<open>is_space\<close> is \<^verbatim>\<open>\s\<close>,
  \<open>is_quote\<close> is \<^verbatim>\<open>['"]\<close> and \<open>is_value_char\<close> is \<^verbatim>\<open>[^'"\n]\<close>.
\<close>

definition is_space :: "char \<Rightarrow> bool" where
  "is_space c =
     (c \<in> set [CHR 0x09, CHR 0x0A, CHR 0x0B, CHR 0x0C, CHR 0x0D, CHR 0x20, CHR 0xA0])"

definition is_quote :: "char \<Rightarrow> bool" where
  "is_quote c = (c = CHR 0x27 \<or> c = CHR 0x22)"

definition is_value_char :: "char \<Rightarrow> bool" where
  "is_value_char c = (\<not> is_quote c \<and> c \<noteq> CHR 0x0A)"

text \<open>
  \<^verbatim>\<open>['"]?([^'"\n]+)\<close> at the head of \<open>r\<close>: the quote is taken when there is one, the
  group takes every value character that follows, at least one; the group of the match.
  (Leaving a quote that is there makes the group fail on it, and the closing
  \<^verbatim>\<open>['"]?\<close> always matches.)
\<close>

definition match_value :: "string \<Rightarrow> string option" where
  "match_value r =
     (let r1 = (case r of [] \<Rightarrow> [] | c # cs \<Rightarrow> if is_quote c then cs else r);
          g = takeWhile is_value_char r1
      in if g = [] then None else Some g)"

text \<open>
  \<^verbatim>\<open>\s*\<close> is greedy and backtracks: the value is tried after the \<open>k\<close> leading white
  spaces of \<open>r\<close>, then after \<open>k - 1\<close> of them, down to none.
\<close>

fun match_after_spaces :: "nat \<Rightarrow> string \<Rightarrow> string option" where
  "match_after_spaces 0 r = match_value r"
| "match_after_spaces (Suc k) r =
     (case match_value (drop (Suc k) r) of
        Some g \<Rightarrow> Some g
      | None \<Rightarrow> match_after_spaces k r)"

text \<open>
  \<^verbatim>\<open>content.match(...)\<close>: the leftmost position at which the whole pattern matches,
  with the group there.
\<close>

fun match_created_at :: "string \<Rightarrow> string option" where
  "match_created_at [] = None"
| "match_created_at (c # cs) =
     (case (if prefix ''created_at:'' (c # cs)
            then (let r = drop (length ''created_at:'') (c # cs)
                  in match_after_spaces (length (takeWhile is_space r)) r)
            else None) of
        Some g \<Rightarrow> Some g
      | None \<Rightarrow> match_created_at cs)"

text \<open>\<^verbatim>\<open>String.prototype.trim\<close>.\<close>

definition trim :: "string \<Rightarrow> string" where
  "trim s = rev (dropWhile is_space (rev (dropWhile is_space s)))"

text \<open>
  \<^verbatim>\<open>getExistingCreatedAt\<close>: \<^verbatim>\<open>readFile\<close> throws on a missing or unreadable file, and the
  \<^verbatim>\<open>catch\<close> falls through to \<^verbatim>\<open>return null\<close>.
\<close>

definition getExistingCreatedAt :: "day_string \<Rightarrow> directory \<Rightarrow> string option" where
  "getExistingCreatedAt dayStr directory =
     (case directory dayStr of
        None \<Rightarrow> None
      | Some file \<Rightarrow>
          if readable file
          then (case match_created_at (content file) of
                  Some g \<Rightarrow> Some (trim g)
                | None \<Rightarrow> None)
          else None)"

subsection \<open>The note\<close>

text \<open>\<^verbatim>\<open>extractCategories\<close>: the truthy categories, through a \<^verbatim>\<open>Set\<close>.\<close>

definition extractCategories :: "card list \<Rightarrow> string list" where
  "extractCategories cards = spread_Set (filter_Boolean (map category cards))"

text \<open>
  The object handed to \<^verbatim>\<open>yaml.dump\<close>, without the tag list (the categories once
  more, in lower case).
\<close>

record frontmatter =
  dayflow_day :: day_string
  day_boundary :: string
  total_cards :: nat
  total_minutes :: int
  categories :: "string list"
  has_journal :: bool
  journal_status :: "string option"
  created_at :: string
  updated_at :: string

text \<open>\<^verbatim>\<open>a || b\<close> on a string that may be \<^verbatim>\<open>null\<close>: \<^verbatim>\<open>null\<close> and \<^verbatim>\<open>''\<close> are falsy.\<close>

definition or_else :: "string option \<Rightarrow> 'a \<Rightarrow> (string \<Rightarrow> 'a) \<Rightarrow> 'a" where
  "or_else a b f = (case a of None \<Rightarrow> b | Some s \<Rightarrow> if s = [] then b else f s)"

text \<open>
  \<^verbatim>\<open>generateFrontmatter\<close>; the two readings \<^verbatim>\<open>new Date().toISOString()\<close> are the first
  two arguments.
\<close>

definition generateFrontmatter ::
  "string \<Rightarrow> string \<Rightarrow> day_string \<Rightarrow> card list \<Rightarrow> journal_entry option \<Rightarrow> string option
   \<Rightarrow> frontmatter" where
  "generateFrontmatter nowISO1 nowISO2 dayStr cards journal existingCreatedAt =
     (let totalMinutes = calculateTotalMinutes cards;
          categories = extractCategories cards
      in \<lparr>dayflow_day = dayStr,
          day_boundary = ''4am'',
          total_cards = length cards,
          total_minutes = totalMinutes,
          categories = categories,
          has_journal = (journal \<noteq> None),
          journal_status =
            (case journal of None \<Rightarrow> None | Some j \<Rightarrow> or_else (status j) None Some),
          created_at = or_else existingCreatedAt nowISO1 (\<lambda>s. s),
          updated_at = nowISO2\<rparr>)"

text \<open>
  \<^verbatim>\<open>generateMarkdownNote\<close>. The text of the note is printed from the front matter, the
  cards, the journal, the distractions and the application usage; the model keeps the
  front matter and the two aggregations that read the metadata, not the printed text.
\<close>

record markdown_note =
  front :: frontmatter
  distractionsLog :: "logged_distraction list"
  appUsage :: "app_usage list"

definition generateMarkdownNote ::
  "string \<Rightarrow> string \<Rightarrow> day_string \<Rightarrow> card list \<Rightarrow> journal_entry option \<Rightarrow> string option
   \<Rightarrow> markdown_note" where
  "generateMarkdownNote nowISO1 nowISO2 dayStr cards journal existingCreatedAt =
     \<lparr>front = generateFrontmatter nowISO1 nowISO2 dayStr cards journal existingCreatedAt,
      distractionsLog = extractAllDistractions cards,
      appUsage = aggregateAppUsage cards\<rparr>"

subsection \<open>The metadata block as text\<close>

text \<open>
  \<^verbatim>\<open>generateFrontmatter\<close> returns \<^verbatim>\<open>'---\n' + yaml.dump(frontmatter) + '---\n'\<close>, the
  first thing in the text of a note. \<^verbatim>\<open>yaml.dump\<close> writes the entries of the object in the
  order of their creation, each as a line \<^verbatim>\<open>key: value\<close>, and a list as a line
  \<^verbatim>\<open>key:\<close> with a line \<^verbatim>\<open>  - item\<close> for each item. Whether it writes a string plain or
  in quotes depends on the string; that choice, and the \<^verbatim>\<open>yyyy-MM-dd\<close> text of a day, are
  arguments of the model.
\<close>

record printing =
  write_string :: "string \<Rightarrow> string"
  day_text :: "day_string \<Rightarrow> string"

fun decimal :: "nat \<Rightarrow> string" where
  "decimal n =
     (if n < 10 then [char_of (48 + n)]
      else decimal (n div 10) @ [char_of (48 + n mod 10)])"

declare decimal.simps [simp del]

definition write_int :: "int \<Rightarrow> string" where
  "write_int i = (if i < 0 then ''-'' @ decimal (nat (- i)) else decimal (nat i))"

definition yaml_entry :: "string \<Rightarrow> string \<Rightarrow> string" where
  "yaml_entry key v = key @ '': '' @ v @ [CHR 0x0A]"

definition yaml_list :: "printing \<Rightarrow> string \<Rightarrow> string list \<Rightarrow> string" where
  "yaml_list p key xs =
     (if xs = [] then yaml_entry key ''[]''
      else key @ '':'' @ [CHR 0x0A]
        @ concat (map (\<lambda>x. ''  - '' @ write_string p x @ [CHR 0x0A]) xs))"

text \<open>
  The text of a note from its first character to the end of the entry before
  \<^verbatim>\<open>created_at\<close>, in the order of the object in \<^verbatim>\<open>generateFrontmatter\<close>; and the same
  with the \<^verbatim>\<open>created_at\<close> line. The text of a note written from a front matter begins
  with the latter; \<^verbatim>\<open>updated_at\<close>, the tags, the closing \<^verbatim>\<open>---\<close> and the body follow.
\<close>

definition block_before_created_at :: "printing \<Rightarrow> frontmatter \<Rightarrow> string" where
  "block_before_created_at p fm =
     ''---'' @ [CHR 0x0A]
     @ yaml_entry ''dayflow_day'' (write_string p (day_text p (dayflow_day fm)))
     @ yaml_entry ''day_boundary'' (write_string p (day_boundary fm))
     @ yaml_entry ''total_cards'' (decimal (total_cards fm))
     @ yaml_entry ''total_minutes'' (write_int (total_minutes fm))
     @ yaml_list p ''categories'' (categories fm)
     @ yaml_entry ''has_journal'' (if has_journal fm then ''true'' else ''false'')
     @ yaml_entry ''journal_status''
         (case journal_status fm of None \<Rightarrow> ''null'' | Some s \<Rightarrow> write_string p s)"

definition block_to_created_at :: "printing \<Rightarrow> frontmatter \<Rightarrow> string" where
  "block_to_created_at p fm =
     block_before_created_at p fm
     @ yaml_entry ''created_at'' (write_string p (created_at fm))"

text \<open>
  A creation timestamp is what \<^verbatim>\<open>toISOString\<close> returns: the digits of an instant in the
  form \<^verbatim>\<open>dddd-dd-ddTdd:dd:dd.dddZ\<close>.
\<close>

definition is_ISO_string :: "string \<Rightarrow> bool" where
  "is_ISO_string ts =
     list_all2 (\<lambda>t c. if t = CHR ''d'' then c \<in> set ''0123456789'' else c = t)
       ''dddd-dd-ddTdd:dd:dd.dddZ'' ts"

text \<open>
  The string is written character for character, plain or between two quotes of one
  kind, as a timestamp is: it has nothing to escape and is too short to fold.
\<close>

definition writes_verbatim :: "printing \<Rightarrow> string \<Rightarrow> bool" where
  "writes_verbatim p s =
     (write_string p s \<in> set [s, [CHR 0x27] @ s @ [CHR 0x27], [CHR 0x22] @ s @ [CHR 0x22]])"

subsection \<open>The data source\<close>

text \<open>
  The two tables. A query that throws (a missing table or column, a corrupt file) is
  \<open>Inl\<close> with the message of the error.
\<close>

record database =
  timeline_cards :: "string + card list"
  journal_entries :: "string + journal_entry list"

definition fetchTimelineCardsForDay :: "database \<Rightarrow> day_string \<Rightarrow> bool \<Rightarrow> string + card list" where
  "fetchTimelineCardsForDay db dayStr includeDeleted =
     (case timeline_cards db of
        Inl message \<Rightarrow> Inl message
      | Inr rows \<Rightarrow>
          Inr (sort_key start_ts
                 (filter (\<lambda>row. day row = dayStr \<and> (includeDeleted \<or> is_deleted row = 0))
                    rows)))"

definition fetchJournalEntryForDay :: "database \<Rightarrow> day_string \<Rightarrow> string + journal_entry option" where
  "fetchJournalEntryForDay db dayStr =
     (case journal_entries db of
        Inl message \<Rightarrow> Inl message
      | Inr rows \<Rightarrow> Inr (find (\<lambda>row. j_day row = dayStr) rows))"

subsection \<open>One day of the sync loop\<close>

text \<open>\<^verbatim>\<open>card.title?.includes(t)\<close>: false when the title is missing.\<close>

definition title_includes :: "card \<Rightarrow> string \<Rightarrow> bool" where
  "title_includes c t = (case title c of None \<Rightarrow> False | Some s \<Rightarrow> sublist t s)"

definition isFailed :: "card \<Rightarrow> bool" where
  "isFailed c =
     (category c = Some ''System'' \<and>
      (title_includes c ''Processing failed'' \<or> title_includes c ''Error'' \<or>
       subcategory c = Some ''Error''))"

text \<open>
  What the body of the loop reads: the flags, the data source, the output directory,
  whether \<^verbatim>\<open>saveNote\<close> fails, and the clock at its three readings (in
  \<^verbatim>\<open>isDayComplete\<close>, and for \<^verbatim>\<open>created_at\<close> and \<^verbatim>\<open>updated_at\<close> in the front matter).
\<close>

record world =
  FORCE :: bool
  INCLUDE_DELETED :: bool
  db :: database
  OUTPUT_DIR :: directory
  write_fails :: bool
  now :: instant
  now_created_at :: string
  now_updated_at :: string

text \<open>
  How the body of the loop ends for a day: the two skips, a note written over an
  existing one or a new one, the \<^verbatim>\<open>catch\<close> of the loop, or \<^verbatim>\<open>process.exit(1)\<close> in
  \<^verbatim>\<open>saveNote\<close>.
\<close>

datatype day_result =
    Skipped_complete
  | Skipped_no_data
  | Updated markdown_note
  | Created markdown_note
  | Error string
  | Exit

definition processDay :: "world \<Rightarrow> day_string \<Rightarrow> day_result" where
  "processDay w dayStr =
     (let existingPath = findExistingNoteByDay dayStr (OUTPUT_DIR w);
          dayComplete = isDayComplete dayStr (now w)
      in if \<not> FORCE w \<and> existingPath \<and> dayComplete then Skipped_complete
         else
           (case fetchTimelineCardsForDay (db w) dayStr (INCLUDE_DELETED w) of
              Inl message \<Rightarrow> Error message
            | Inr allCards \<Rightarrow>
                (let timelineCards = filter (\<lambda>card. \<not> isFailed card) allCards
                 in case fetchJournalEntryForDay (db w) dayStr of
                      Inl message \<Rightarrow> Error message
                    | Inr journalEntry \<Rightarrow>
                        if timelineCards = [] \<and> journalEntry = None then Skipped_no_data
                        else
                          (let existingCreatedAt =
                                 (if \<not> FORCE w \<and> existingPath
                                  then getExistingCreatedAt dayStr (OUTPUT_DIR w)
                                  else None);
                               markdown =
                                 generateMarkdownNote (now_created_at w) (now_updated_at w)
                                   dayStr timelineCards journalEntry existingCreatedAt
                           in if write_fails w then Exit
                              else if existingPath then Updated markdown
                              else Created markdown))))"

subsection \<open>The words of the specification about the sync decision\<close>

datatype action = skip_complete | skip_empty | update | create

text \<open>The decision table, first match first.\<close>

definition decision_table :: "bool \<Rightarrow> bool \<Rightarrow> bool \<Rightarrow> bool \<Rightarrow> action" where
  "decision_table forceRequested artifactExists dayComplete hasAnyData =
     (if \<not> forceRequested \<and> artifactExists \<and> dayComplete then skip_complete
      else if \<not> hasAnyData then skip_empty
      else if artifactExists then update
      else create)"

text \<open>
  A day is complete when the current instant has reached the boundary instant of the
  next calendar date.
\<close>

definition dayIsComplete :: "day_string \<Rightarrow> instant \<Rightarrow> bool" where
  "dayIsComplete d currentInstant = (boundary_instant (d + 1) \<le> currentInstant)"

text \<open>
  A qualifying activity record of a day: a card of that day, not deleted unless deleted
  cards are included, and not a failed-processing card.
\<close>

definition qualifying :: "bool \<Rightarrow> day_string \<Rightarrow> card \<Rightarrow> bool" where
  "qualifying includeDeleted d c =
     (day c = d \<and> (includeDeleted \<or> is_deleted c = 0) \<and> \<not> isFailed c)"

definition hasAnyData :: "bool \<Rightarrow> day_string \<Rightarrow> card list \<Rightarrow> journal_entry list \<Rightarrow> bool" where
  "hasAnyData includeDeleted d rows jrows =
     (list_ex (qualifying includeDeleted d) rows \<or> list_ex (\<lambda>j. j_day j = d) jrows)"

definition action_of :: "day_result \<Rightarrow> action option" where
  "action_of r =
     (case r of
        Skipped_complete \<Rightarrow> Some skip_complete
      | Skipped_no_data \<Rightarrow> Some skip_empty
      | Updated note \<Rightarrow> Some update
      | Created note \<Rightarrow> Some create
      | Error message \<Rightarrow> None
      | Exit \<Rightarrow> None)"

text \<open>The note that a day's processing writes, and the creation timestamp in it.\<close>

definition written_note :: "day_result \<Rightarrow> markdown_note option" where
  "written_note r =
     (case r of Updated note \<Rightarrow> Some note | Created note \<Rightarrow> Some note | _ \<Rightarrow> None)"

definition written_created_at :: "day_result \<Rightarrow> string option" where
  "written_created_at r = map_option (\<lambda>note. created_at (front note)) (written_note r)"

subsection \<open>Examples\<close>

text \<open>
  A way of writing strings that leaves a word of letters after a letter or a digit plain
  and puts every other string in single quotes; the notes of the examples are of day 0.
\<close>

definition example_printing :: printing where
  "example_printing =
     \<lparr>write_string =
        (\<lambda>s. if s \<noteq> []
                \<and> hd s \<in> set ''abcdefghijklmnopqrstuvwxyzABCDEFGHIJKLMNOPQRSTUVWXYZ0123456789''
                \<and> list_all
                    (\<lambda>c. c \<in> set ''abcdefghijklmnopqrstuvwxyzABCDEFGHIJKLMNOPQRSTUVWXYZ'') (tl s)
             then s else [CHR 0x27] @ s @ [CHR 0x27]),
      day_text = (\<lambda>d. ''1970-01-01'')\<rparr>"

text \<open>
  The front matter of a note of day 0 created at \<^verbatim>\<open>2024-12-19T10:00:00.000Z\<close> with
  the given categories, and the text of that note up to the end of its metadata block.
\<close>

definition example_frontmatter :: "string list \<Rightarrow> frontmatter" where
  "example_frontmatter cats =
     \<lparr>dayflow_day = 0, day_boundary = ''4am'', total_cards = 1, total_minutes = 30,
      categories = cats, has_journal = False, journal_status = None,
      created_at = ''2024-12-19T10:00:00.000Z'', updated_at = ''2024-12-19T11:00:00.000Z''\<rparr>"

definition example_content :: "string list \<Rightarrow> string" where
  "example_content cats =
     block_to_created_at example_printing (example_frontmatter cats)
     @ yaml_entry ''updated_at''
         (write_string example_printing (updated_at (example_frontmatter cats)))
     @ ''---'' @ [CHR 0x0A]"

text \<open>A text without a \<^verbatim>\<open>created_at\<close> line.\<close>

definition example_content_without :: string where
  "example_content_without =
     ''---'' @ [CHR 0x0A] @ ''dayflow_day: '' @ [CHR 0x27] @ ''1970-01-01'' @ [CHR 0x27, CHR 0x0A]
     @ ''---'' @ [CHR 0x0A]"

text \<open>
  A world with one card of day 0 and no journal, whose clock stands two hours after the
  boundary instant of day 0 (the day is not complete); the note of day 0 is the given one.
\<close>

definition example_world :: "bool \<Rightarrow> note_file option \<Rightarrow> world" where
  "example_world force file =
     \<lparr>FORCE = force,
      INCLUDE_DELETED = False,
      db = \<lparr>timeline_cards = Inr [card_with_apps 30 (Some ''Xcode'') None],
            journal_entries = Inr []\<rparr>,
      OUTPUT_DIR = (\<lambda>d. if d = 0 then file else None),
      write_fails = False,
      now = 6 * 3600000,
      now_created_at = ''2024-12-20T08:00:00.000Z'',
      now_updated_at = ''2024-12-20T08:00:00.001Z''\<rparr>"

text \<open>A card of ten minutes whose metadata is cut short and does not parse.\<close>

definition card_unparsable :: card where
  "card_unparsable =
     (card_from_to 0 600)\<lparr>metadata := Unparsable ''Unexpected end of JSON input''\<rparr>"

text \<open>
  For the proofs: a card whose metadata does not parse, taken as if it had none; and
  whether the metadata of a card is absent or does not parse.
\<close>

definition unusable :: "metadata_json \<Rightarrow> bool" where
  "unusable m = (case m of NoMetadata \<Rightarrow> True | Unparsable message \<Rightarrow> True | Payload ds sites \<Rightarrow> False)"

definition as_if_absent :: "card \<Rightarrow> card" where
  "as_if_absent c = (if unusable (metadata c) then c\<lparr>metadata := NoMetadata\<rparr> else c)"

section \<open>Day boundary resolution\<close>

lemma setHours_4: "setHours t 4 0 0 0 = boundary_instant (calendar_date t)"
  by (simp add: setHours_def boundary_instant_def calendar_date_def MS_PER_DAY_def MS_PER_HOUR_def)

lemma calendar_date_boundary: "calendar_date (boundary_instant d) = d"
  by (simp add: calendar_date_def boundary_instant_def)

lemma boundary_instant_shift: "boundary_instant d + n * 86400000 = boundary_instant (d + n)"
  by (simp add: boundary_instant_def algebra_simps)

text \<open>
  C2. \<open>getDayInfoFor4AMBoundary\<close> on an instant \<open>t\<close> of calendar date \<open>D\<close>: when \<open>t\<close> is
  strictly before the boundary instant of \<open>D\<close>, the day identifier is the previous
  calendar date \<open>D - 1\<close>, the day starts at the boundary instant of \<open>D - 1\<close> and ends at
  the boundary instant of \<open>D\<close>; otherwise, the boundary instant itself included, the day
  identifier is \<open>D\<close>, the day starts at the boundary instant of \<open>D\<close> and ends at the
  boundary instant of \<open>D + 1\<close>.
\<close>

theorem resolveDay_boundary:
  "getDayInfoFor4AMBoundary t =
     (if t < boundary_instant (calendar_date t)
      then \<lparr>dayString = calendar_date t - 1,
            startOfDay = boundary_instant (calendar_date t - 1),
            endOfDay = boundary_instant (calendar_date t)\<rparr>
      else \<lparr>dayString = calendar_date t,
            startOfDay = boundary_instant (calendar_date t),
            endOfDay = boundary_instant (calendar_date t + 1)\<rparr>)"
proof -
  let ?D = "calendar_date t"
  have four: "setHours t 4 0 0 0 = boundary_instant ?D"
    by (rule setHours_4)
  have before: "subDays (boundary_instant ?D) 1 = boundary_instant (?D - 1)"
    using boundary_instant_shift [of ?D "- 1"]
    by (simp add: subDays_def addDays_def MS_PER_DAY_def)
  have after: "addDays (boundary_instant ?D) 1 = boundary_instant (?D + 1)"
    using boundary_instant_shift [of ?D 1]
    by (simp add: addDays_def MS_PER_DAY_def)
  have fmt: "format_yyyy_MM_dd (boundary_instant d) = d" for d
    using calendar_date_boundary [of d]
    by (simp add: format_yyyy_MM_dd_def calendar_date_def MS_PER_DAY_def)
  show ?thesis
    by (simp add: getDayInfoFor4AMBoundary_def Let_def four before after fmt)
qed

theorem resolveDay_boundary_witness:
  "getDayInfoFor4AMBoundary (boundary_instant 20000) =
     \<lparr>dayString = 20000, startOfDay = boundary_instant 20000,
      endOfDay = boundary_instant 20001\<rparr>
   \<and> getDayInfoFor4AMBoundary (boundary_instant 20000 - 1) =
     \<lparr>dayString = 19999, startOfDay = boundary_instant 19999,
      endOfDay = boundary_instant 20000\<rparr>"
  using resolveDay_boundary [of "boundary_instant 20000"]
    resolveDay_boundary [of "boundary_instant 20000 - 1"]
  by (simp add: boundary_instant_def calendar_date_def)

section \<open>The list of days\<close>

text \<open>
  The day that \<open>getDayInfoFor4AMBoundary\<close> names holds the instant: it starts at the
  boundary instant of the named date, lasts one day, and the instant lies in it.
\<close>

lemma getDayInfo_interval:
  "startOfDay (getDayInfoFor4AMBoundary t) =
     boundary_instant (dayString (getDayInfoFor4AMBoundary t))
   \<and> endOfDay (getDayInfoFor4AMBoundary t) = startOfDay (getDayInfoFor4AMBoundary t) + 86400000
   \<and> startOfDay (getDayInfoFor4AMBoundary t) \<le> t
   \<and> t < endOfDay (getDayInfoFor4AMBoundary t)"
proof -
  let ?D = "calendar_date t"
  have day_before: "subDays (boundary_instant ?D) 1 = boundary_instant (?D - 1)"
    by (simp add: subDays_def addDays_def boundary_instant_def MS_PER_DAY_def algebra_simps)
  have fmt: "format_yyyy_MM_dd (boundary_instant d) = d" for d
    by (simp add: format_yyyy_MM_dd_def boundary_instant_def MS_PER_DAY_def)
  have low: "boundary_instant (?D - 1) \<le> t"
    unfolding boundary_instant_def calendar_date_def by presburger
  have high: "t < boundary_instant ?D + 86400000"
    unfolding boundary_instant_def calendar_date_def by presburger
  have next_day: "boundary_instant ?D = boundary_instant (?D - 1) + 86400000"
    by (simp add: boundary_instant_def algebra_simps)
  show ?thesis
  proof (cases "t < boundary_instant ?D")
    case True
    then have "getDayInfoFor4AMBoundary t =
        \<lparr>dayString = ?D - 1, startOfDay = boundary_instant (?D - 1),
         endOfDay = boundary_instant ?D\<rparr>"
      by (simp add: getDayInfoFor4AMBoundary_def Let_def setHours_4 day_before fmt)
    with True low next_day show ?thesis by simp
  next
    case False
    then have "getDayInfoFor4AMBoundary t =
        \<lparr>dayString = ?D, startOfDay = boundary_instant ?D,
         endOfDay = boundary_instant ?D + 86400000\<rparr>"
      by (simp add: getDayInfoFor4AMBoundary_def Let_def setHours_4 fmt addDays_def MS_PER_DAY_def)
    with False high show ?thesis by simp
  qed
qed

lemma dayString_getDayInfo:
  "dayString (getDayInfoFor4AMBoundary t) = (t - 4 * 3600000) div 86400000"
proof -
  have "t < boundary_instant (calendar_date t) \<Longrightarrow>
      (t - 4 * 3600000) div 86400000 = calendar_date t - 1"
    unfolding boundary_instant_def calendar_date_def by linarith
  moreover have "\<not> t < boundary_instant (calendar_date t) \<Longrightarrow>
      (t - 4 * 3600000) div 86400000 = calendar_date t"
    unfolding boundary_instant_def calendar_date_def by linarith
  moreover have "format_yyyy_MM_dd (boundary_instant d) = d" for d
    by (simp add: format_yyyy_MM_dd_def boundary_instant_def MS_PER_DAY_def)
  moreover have "subDays (boundary_instant d) 1 = boundary_instant (d - 1)" for d
    by (simp add: subDays_def addDays_def boundary_instant_def MS_PER_DAY_def algebra_simps)
  ultimately show ?thesis
    by (simp add: getDayInfoFor4AMBoundary_def Let_def setHours_4)
qed

lemma set_first_seen [simp]: "set (first_seen xs) = set xs"
  by (induction xs rule: first_seen.induct) auto

lemma distinct_first_seen [simp]: "distinct (first_seen xs)"
  by (induction xs rule: first_seen.induct) auto

lemma length_first_seen: "length (first_seen xs) \<le> length xs"
proof (induction xs rule: first_seen.induct)
  case 1
  show ?case by simp
next
  case (2 x xs)
  have "length (first_seen (removeAll x xs)) \<le> length xs"
    using 2 length_removeAll_less_eq [of x xs] by (rule le_trans)
  then show ?case by simp
qed

lemma first_seen_distinct: "distinct xs \<Longrightarrow> first_seen xs = xs"
  by (induction xs) simp_all

lemma foldl_push_new:
  "foldl push_new acc xs = acc @ first_seen (filter (\<lambda>x. x \<notin> set acc) xs)"
proof (induction xs arbitrary: acc)
  case Nil
  show ?case by simp
next
  case (Cons x xs)
  have step: "foldl push_new acc (x # xs) = foldl push_new (push_new acc x) xs"
    by simp
  show ?case
  proof (cases "x \<in> set acc")
    case True
    then have "push_new acc x = acc"
      by (simp add: push_new_def)
    with True show ?thesis
      unfolding step by (simp add: Cons.IH)
  next
    case False
    then have "push_new acc x = acc @ [x]"
      by (simp add: push_new_def)
    moreover have "removeAll x (filter (\<lambda>y. y \<notin> set acc) xs) =
        filter (\<lambda>y. y \<notin> set (acc @ [x])) xs"
      by (induction xs) auto
    ultimately show ?thesis
      unfolding step using False by (simp add: Cons.IH)
  qed
qed

lemma first_seen_idem [simp]: "first_seen (first_seen xs) = first_seen xs"
  by (rule first_seen_distinct) simp

lemma spread_Set_first_seen: "spread_Set xs = first_seen xs"
  by (simp add: spread_Set_def foldl_push_new)

text \<open>
  The loop of \<open>calculateDateRange\<close> and the \<^verbatim>\<open>Set\<close> after it, for any way \<open>f\<close> of naming
  the day at an offset: the result is the first-seen deduplication of the names, so it
  has no duplicates and at most \<open>n\<close> entries whatever the calendar does.
\<close>

lemma push_new_loop:
  "spread_Set (foldl (\<lambda>dates i. push_new dates (f i)) [] [0..<n]) = first_seen (map f [0..<n])"
proof -
  have "foldl (\<lambda>dates i. push_new dates (f i)) [] [0..<n] = foldl push_new [] (map f [0..<n])"
    by (simp add: foldl_map)
  then show ?thesis
    by (simp add: spread_Set_first_seen foldl_push_new)
qed

lemma calculateDateRange_first_seen:
  "calculateDateRange z n today = first_seen (map (day_at_offset z today) [0..<n])"
  using push_new_loop [of "day_at_offset z today" n]
  by (simp add: calculateDateRange_def Let_def day_at_offset_def [abs_def])

text \<open>In a regular zone a skipped reading becomes a reading of the same calendar date.\<close>

lemma land_same_date:
  assumes "regular_zone z"
  shows "land z t div 86400000 = t div 86400000"
proof (cases "find (\<lambda>(g, len). g \<le> t \<and> t < g + len) z")
  case None
  then show ?thesis by (simp add: land_def)
next
  case (Some p)
  obtain g len where p: "p = (g, len)" by (cases p)
  from Some have "p \<in> set z" and "case p of (g, len) \<Rightarrow> g \<le> t \<and> t < g + len"
    by (auto simp: find_Some_iff in_set_conv_nth)
  with assms p have inside: "g \<le> t" "t < g + len"
    and one_date: "g div 86400000 = (g + 2 * len - 1) div 86400000"
    by (auto simp: regular_zone_def list_all_iff)
  have "g div 86400000 \<le> t div 86400000"
    using inside(1) by (rule zdiv_mono1) simp
  moreover have "t div 86400000 \<le> (t + len) div 86400000"
    using inside by (intro zdiv_mono1) simp_all
  moreover have "(t + len) div 86400000 \<le> (g + 2 * len - 1) div 86400000"
    using inside by (intro zdiv_mono1) simp_all
  ultimately have "(t + len) div 86400000 = t div 86400000"
    using one_date by simp
  then show ?thesis
    using Some p by (simp add: land_def)
qed

lemma subDays_in_date:
  assumes "regular_zone z"
  shows "subDays_in z today (int i) div 86400000 = today div 86400000 - int i"
proof -
  have "(today - int i * 86400000) div 86400000 = today div 86400000 - int i"
    by linarith
  then show ?thesis
    using land_same_date [OF assms, of "today - int i * 86400000"]
    by (simp add: subDays_in_def subDays_def addDays_def MS_PER_DAY_def)
qed

text \<open>
  The day at offset \<open>i\<close> is the date \<open>i\<close> days before the date of the reference instant,
  or the date before that one.
\<close>

lemma day_at_offset_bounds:
  assumes "regular_zone z"
  shows "today div 86400000 - int i - 1 \<le> day_at_offset z today i"
    and "day_at_offset z today i \<le> today div 86400000 - int i"
proof -
  let ?r = "subDays_in z today (int i)"
  have date: "?r div 86400000 = today div 86400000 - int i"
    using assms by (rule subDays_in_date)
  have "(?r - 86400000) div 86400000 \<le> (?r - 4 * 3600000) div 86400000"
    by (rule zdiv_mono1) simp_all
  moreover have "(?r - 86400000) div 86400000 = ?r div 86400000 - 1"
    by simp
  ultimately have "?r div 86400000 - 1 \<le> (?r - 4 * 3600000) div 86400000"
    by simp
  then show "today div 86400000 - int i - 1 \<le> day_at_offset z today i"
    by (simp add: day_at_offset_def dayString_getDayInfo date)
  have "(?r - 4 * 3600000) div 86400000 \<le> ?r div 86400000"
    by (rule zdiv_mono1) simp_all
  then show "day_at_offset z today i \<le> today div 86400000 - int i"
    by (simp add: day_at_offset_def dayString_getDayInfo date)
qed

lemma offsets_nonincreasing:
  assumes "regular_zone z"
  shows "sorted_wrt (\<ge>) (map (day_at_offset z today) [0..<n])"
proof -
  have "sorted_wrt (\<lambda>i j. day_at_offset z today i \<ge> day_at_offset z today j) [0..<n]"
  proof (rule sorted_wrt_mono_rel [of _ "(<)"])
    show "sorted_wrt (<) [0..<n]" by simp
  next
    fix i j :: nat
    assume "i < j"
    then show "day_at_offset z today i \<ge> day_at_offset z today j"
      using day_at_offset_bounds(1) [OF assms, of today i]
        day_at_offset_bounds(2) [OF assms, of today j]
      by linarith
  qed
  then show ?thesis by (simp add: sorted_wrt_map)
qed

text \<open>Without its repetitions, a list that never ascends descends strictly.\<close>

lemma first_seen_descending:
  fixes xs :: "int list"
  shows "sorted_wrt (\<ge>) xs \<Longrightarrow> sorted_wrt (>) (first_seen xs)"
proof (induction xs rule: first_seen.induct)
  case 1
  show ?case by simp
next
  case (2 x xs)
  from "2.prems" have below: "\<forall>y\<in>set xs. y \<le> x" and rest: "sorted_wrt (\<ge>) xs"
    by simp_all
  have "sorted_wrt (\<ge>) (removeAll x xs)"
    using rest by (simp add: removeAll_filter_not_eq sorted_wrt_filter)
  then have "sorted_wrt (>) (first_seen (removeAll x xs))"
    by (rule "2.IH")
  moreover have "\<forall>y\<in>set (removeAll x xs). y < x"
    using below by auto
  ultimately show ?case by simp
qed

text \<open>
  C3. For every lookback count \<open>n\<close> and every reference instant, in any zone,
  \<open>calculateDateRange\<close> returns the first-seen-order deduplication of the identifiers of
  the reference instant less \<open>i\<close> whole days, \<open>i = 0 .. n - 1\<close>; the list has at most \<open>n\<close>
  entries and no entry twice. In a regular zone two offsets can name the same day (where
  the time of day of the reference instant is skipped on a date), and every entry of
  the list is a later calendar date than the entries after it.
\<close>

theorem listDays_dedup_newest_first:
  "calculateDateRange z n today = first_seen (map (day_at_offset z today) [0..<n])
   \<and> length (calculateDateRange z n today) \<le> n
   \<and> distinct (calculateDateRange z n today)
   \<and> (regular_zone z \<longrightarrow> sorted_wrt (>) (calculateDateRange z n today))"
proof -
  have "length (first_seen (map (day_at_offset z today) [0..<n])) \<le> n"
    using length_first_seen [of "map (day_at_offset z today) [0..<n]"] by simp
  moreover have "sorted_wrt (>) (first_seen (map (day_at_offset z today) [0..<n]))"
    if "regular_zone z"
    using that by (intro first_seen_descending offsets_nonincreasing)
  ultimately show ?thesis
    by (simp add: calculateDateRange_first_seen)
qed

text \<open>
  In Helsinki at 03:30 on 1 April 2024, three days back: the reading 03:30 of 31 March is
  skipped and becomes 04:30, so the offsets 0 and 1 both name 31 March (day 19813); the
  list names it once, then 29 March.
\<close>

theorem listDays_dedup_newest_first_witness:
  "regular_zone helsinki_2024
   \<and> map (day_at_offset helsinki_2024 1711942200000) [0..<3] = [19813, 19813, 19811]
   \<and> calculateDateRange helsinki_2024 3 1711942200000 = [19813, 19811]
   \<and> sorted_wrt (>) (calculateDateRange helsinki_2024 3 1711942200000)"
proof -
  have regular: "regular_zone helsinki_2024"
    by (simp add: regular_zone_def helsinki_2024_def boundary_instant_def)
  have days: "map (day_at_offset helsinki_2024 1711942200000) [0..<3] = [19813, 19813, 19811]"
    by (simp add: day_at_offset_def dayString_getDayInfo subDays_in_def subDays_def
        addDays_def MS_PER_DAY_def land_def helsinki_2024_def upt_rec)
  show ?thesis
    using listDays_dedup_newest_first [of helsinki_2024 3 1711942200000] regular
    by (simp add: days)
qed

section \<open>Durations\<close>

lemma Math_round_floor: "Math_round x = \<lfloor>x + 1 / 2\<rfloor>"
proof (cases "x - of_int \<lfloor>x\<rfloor> < 1 / 2")
  case True
  then have "\<lfloor>x + 1 / 2\<rfloor> = \<lfloor>x\<rfloor>"
    by (intro floor_unique) linarith+
  with True show ?thesis by (simp add: Math_round_def)
next
  case False
  then have "\<lfloor>x + 1 / 2\<rfloor> = \<lfloor>x\<rfloor> + 1"
    by (intro floor_unique) (simp; linarith)+
  with False show ?thesis by (simp add: Math_round_def)
qed

lemma calculateDuration_div: "calculateDuration s e = (e - s + 30) div 60"
proof -
  have "real_of_int (e - s) / 60 + 1 / 2 = real_of_int (e - s + 30) / real_of_int 60"
    by (simp add: field_simps)
  then have "\<lfloor>real_of_int (e - s) / 60 + 1 / 2\<rfloor> = (e - s + 30) div 60"
    by (simp only: floor_divide_of_int_eq)
  then show ?thesis
    by (simp add: calculateDuration_def Math_round_floor)
qed

lemma foldl_add_sum_list:
  "foldl (\<lambda>total x. total + f x) a xs = (a :: int) + sum_list (map f xs)"
  by (induction xs arbitrary: a) simp_all

lemma calculateTotalMinutes_sum_list:
  "calculateTotalMinutes cards =
     sum_list (map (\<lambda>c. calculateDuration (start_ts c) (end_ts c)) cards)"
  by (simp add: calculateTotalMinutes_def foldl_add_sum_list)

text \<open>
  C5. The total duration of a list of cards is the sum, over the cards, of the quotient
  (end - start) / 60 rounded half-up, each quotient rounded on its own; a card from 0 s
  to 90 s counts 2 minutes, and two such cards count 4 minutes although their 180 s
  together are 3 minutes.
\<close>

theorem totalDuration_rounds_each_record:
  "calculateTotalMinutes cards =
     (\<Sum>c\<leftarrow>cards. \<lfloor>real_of_int (end_ts c - start_ts c) / 60 + 1 / 2\<rfloor>)
   \<and> calculateTotalMinutes [card_from_to 0 90] = 2
   \<and> calculateTotalMinutes [card_from_to 0 90, card_from_to 0 90] = 4
   \<and> \<lfloor>real_of_int ((90 - 0) + (90 - 0)) / 60 + 1 / 2\<rfloor> = (3 :: int)"
proof -
  have "calculateTotalMinutes cards =
      (\<Sum>c\<leftarrow>cards. \<lfloor>real_of_int (end_ts c - start_ts c) / 60 + 1 / 2\<rfloor>)"
    by (simp add: calculateTotalMinutes_sum_list calculateDuration_def Math_round_floor)
  moreover have "calculateTotalMinutes [card_from_to 0 90] = 2"
    by (simp add: calculateTotalMinutes_sum_list calculateDuration_div card_from_to_def)
  moreover have "calculateTotalMinutes [card_from_to 0 90, card_from_to 0 90] = 4"
    by (simp add: calculateTotalMinutes_sum_list calculateDuration_div card_from_to_def)
  moreover have "\<lfloor>real_of_int ((90 - 0) + (90 - 0)) / 60 + 1 / 2\<rfloor> = (3 :: int)"
    by (simp add: floor_eq_iff)
  ultimately show ?thesis by blast
qed

theorem totalDuration_rounds_each_record_witness:
  "calculateTotalMinutes [card_from_to 0 90, card_from_to 100 129, card_from_to 100 130] = 3"
proof -
  have "(\<Sum>c\<leftarrow>[card_from_to 0 90, card_from_to 100 129, card_from_to 100 130].
      \<lfloor>real_of_int (end_ts c - start_ts c) / 60 + 1 / 2\<rfloor>) = (3 :: int)"
    by (simp add: card_from_to_def floor_eq_iff)
  then show ?thesis
    using totalDuration_rounds_each_record
      [of "[card_from_to 0 90, card_from_to 100 129, card_from_to 100 130]"]
    by simp
qed

text \<open>
  C6. The total duration does not depend on the order of the cards: two lists with the
  same cards, each as often in one as in the other, have the same total.
\<close>

theorem totalDuration_permutation_invariant:
  "mset cards' = mset cards \<Longrightarrow> calculateTotalMinutes cards' = calculateTotalMinutes cards"
proof -
  assume perm: "mset cards' = mset cards"
  let ?f = "\<lambda>c. calculateDuration (start_ts c) (end_ts c)"
  have "sum_list (map ?f cards') = sum_mset (image_mset ?f (mset cards'))"
    by (simp add: sum_mset_sum_list [symmetric])
  also have "\<dots> = sum_mset (image_mset ?f (mset cards))"
    by (simp only: perm)
  also have "\<dots> = sum_list (map ?f cards)"
    by (simp add: sum_mset_sum_list [symmetric])
  finally show ?thesis
    by (simp only: calculateTotalMinutes_sum_list)
qed

theorem totalDuration_permutation_invariant_witness:
  "mset [card_from_to 0 90, card_from_to 5 1000] = mset [card_from_to 5 1000, card_from_to 0 90]
   \<and> calculateTotalMinutes [card_from_to 0 90, card_from_to 5 1000] =
     calculateTotalMinutes [card_from_to 5 1000, card_from_to 0 90]"
proof -
  have perm: "mset [card_from_to 0 90, card_from_to 5 1000] =
      mset [card_from_to 5 1000, card_from_to 0 90]"
    by (simp add: add.commute)
  show ?thesis
    using perm totalDuration_permutation_invariant [OF perm] by simp
qed

section \<open>Application usage\<close>

lemma first_seen_snoc:
  "first_seen (xs @ [x]) = (if x \<in> set xs then first_seen xs else first_seen xs @ [x])"
proof (induction xs rule: first_seen.induct)
  case 1
  show ?case by simp
next
  case (2 y ys)
  show ?case
  proof (cases "x = y")
    case True
    then show ?thesis by simp
  next
    case False
    with 2 show ?thesis by simp
  qed
qed

lemma insort_key_map:
  "insort_key f (h x) (map h ys) = map h (insort_key (\<lambda>a. f (h a)) x ys)"
  by (induction ys) simp_all

lemma sort_key_map: "sort_key f (map h xs) = map h (sort_key (\<lambda>a. f (h a)) xs)"
  by (induction xs) (simp_all add: insort_key_map)

lemma filter_Boolean_named_apps:
  "filter_Boolean
     [primary (appSites (snd (parseMetadata (metadata c)))),
      secondary (appSites (snd (parseMetadata (metadata c))))] = named_apps c"
  by (simp add: filter_Boolean_def named_apps_def parseMetadata_def no_app_sites_def
      split: metadata_json.splits option.splits)

lemma foldl_cards_mentions:
  "foldl (\<lambda>appStats card.
       foldl (count_app (calculateDuration (start_ts card) (end_ts card))) appStats
         (named_apps card)) st cards =
   foldl count_mention st (app_mentions cards)"
proof (induction cards arbitrary: st)
  case Nil
  show ?case by (simp add: app_mentions_def)
next
  case (Cons c cards)
  have inner: "foldl (count_app d) st apps = foldl count_mention st (map (\<lambda>a. (a, d)) apps)"
    for d st apps
    by (induction apps arbitrary: st) (simp_all add: count_mention_def)
  have "app_mentions (c # cards) =
      map (\<lambda>a. (a, calculateDuration (start_ts c) (end_ts c))) (named_apps c) @ app_mentions cards"
    by (simp add: app_mentions_def)
  then show ?case
    using Cons.IH by (simp add: inner)
qed


lemma stat_of_snoc:
  "stat_of (ms @ [(a, d)]) b =
     (if b = a
      then (stat_of ms b)\<lparr>sessions := sessions (stat_of ms b) + 1,
                          totalMinutes := totalMinutes (stat_of ms b) + d\<rparr>
      else stat_of ms b)"
  by (simp add: stat_of_def)

lemma stat_of_unnamed: "a \<notin> set (map fst ms) \<Longrightarrow> stat_of ms a = \<lparr>sessions = 0, totalMinutes = 0\<rparr>"
proof -
  assume "a \<notin> set (map fst ms)"
  then have "filter (\<lambda>m. fst m = a) ms = []"
    by (auto simp: filter_empty_conv)
  then show ?thesis by (simp add: stat_of_def)
qed

lemma foldl_count_mention:
  "\<forall>m\<in>set ms. \<not> inherited (fst m) \<Longrightarrow>
   foldl count_mention [] ms = map (\<lambda>a. (a, stat_of ms a)) (first_seen (map fst ms))"
proof (induction ms rule: rev_induct)
  case Nil
  show ?case by simp
next
  case (snoc m ms)
  obtain a d where m: "m = (a, d)" by (cases m)
  let ?F = "first_seen (map fst ms)"
  let ?S = "map (\<lambda>b. (b, stat_of ms b)) ?F"
  have IH: "foldl count_mention [] ms = ?S"
    using snoc by simp
  have not_inh: "\<not> inherited a"
    using snoc.prems m by simp
  have own: "has_own ?S a \<longleftrightarrow> a \<in> set (map fst ms)"
    by (simp add: has_own_def comp_def)
  have upd: "map (\<lambda>(k, stats). if k = a
        then (k, stats\<lparr>sessions := sessions stats + 1, totalMinutes := totalMinutes stats + d\<rparr>)
        else (k, stats)) (map (\<lambda>b. (b, stat_of ms b)) xs) =
      map (\<lambda>b. (b, stat_of (ms @ [(a, d)]) b)) xs" for xs
    by (induction xs) (simp_all add: stat_of_snoc)
  show ?case
  proof (cases "a \<in> set (map fst ms)")
    case True
    then have "first_seen (map fst (ms @ [m])) = ?F"
      by (simp add: first_seen_snoc m)
    moreover have "count_mention ?S m = map (\<lambda>b. (b, stat_of (ms @ [(a, d)]) b)) ?F"
      using True own upd [of ?F] by (simp add: count_mention_def count_app_def m)
    ultimately show ?thesis
      by (simp add: IH m)
  next
    case False
    then have F: "first_seen (map fst ms @ [a]) = ?F @ [a]"
      by (simp add: first_seen_snoc)
    have "stat_of (ms @ [(a, d)]) a = \<lparr>sessions = 1, totalMinutes = d\<rparr>"
      using False by (simp add: stat_of_snoc stat_of_unnamed)
    then have "count_mention ?S m = map (\<lambda>b. (b, stat_of (ms @ [(a, d)]) b)) (?F @ [a])"
      using False own not_inh upd [of ?F] by (simp add: count_mention_def count_app_def m)
    then show ?thesis
      by (simp add: IH m F)
  qed
qed


lemma Object_entries_map:
  "Object_entries (map (\<lambda>a. (a, g a)) names) = map (\<lambda>a. (a, g a)) (own_key_order names)"
  by (simp add: Object_entries_def own_key_order_def sort_key_map filter_map comp_def)

lemma usage_of_stat_of:
  "usage_of ms a = \<lparr>sessions = sessions (stat_of ms a), totalMinutes = totalMinutes (stat_of ms a), app = a\<rparr>"
  by (simp add: usage_of_def stat_of_def)

lemma aggregateAppUsage_app_mentions:
  "aggregateAppUsage cards =
     map (\<lambda>(name, stats).
            \<lparr>sessions = sessions stats, totalMinutes = totalMinutes stats, app = name\<rparr>)
       (sort_by_totalMinutes_desc (Object_entries (foldl count_mention [] (app_mentions cards))))"
  by (simp add: aggregateAppUsage_def Let_def filter_Boolean_named_apps foldl_cards_mentions)

lemma aggregateAppUsage_by_key_order:
  assumes "\<forall>a\<in>set (map fst (app_mentions cards)). \<not> inherited a"
  shows "aggregateAppUsage cards = applicationUsage_by_key_order cards"
proof -
  let ?ms = "app_mentions cards"
  have "\<forall>m\<in>set ?ms. \<not> inherited (fst m)"
    using assms by simp
  then have stats: "foldl count_mention [] ?ms =
      map (\<lambda>a. (a, stat_of ?ms a)) (first_seen (map fst ?ms))"
    by (rule foldl_count_mention)
  show ?thesis
    by (simp add: aggregateAppUsage_app_mentions stats Object_entries_map
        sort_by_totalMinutes_desc_def sort_key_map applicationUsage_by_key_order_def
        usage_of_stat_of comp_def)
qed

lemma own_key_order_no_index:
  "\<forall>a\<in>set names. \<not> is_array_index a \<Longrightarrow> own_key_order names = names"
  by (simp add: own_key_order_def filter_empty_conv filter_id_conv)

lemma mentioned_apps_cases:
  "fst ` set (app_mentions cards) = (\<Union>c\<in>set cards. set (named_apps c))"
  by (induction cards) (simp_all add: app_mentions_def image_Un image_image)

text \<open>
  C7, amended. When no card names an application by the name of a property that objects
  inherit, \<open>aggregateAppUsage\<close> lists every named application once, with one session
  for each naming and the minutes of each naming added up, sorted by descending total
  minutes; applications of equal total stand in the order of the keys of an object:
  names that are array indices first, ascending, then the other names in the order of
  their first appearance. When no name is an array index either, this is the order of
  first appearance throughout.
\<close>

theorem applicationUsage_own_key_order:
  "\<forall>a\<in>set (map fst (app_mentions cards)). \<not> inherited a \<Longrightarrow>
     aggregateAppUsage cards = applicationUsage_by_key_order cards
     \<and> sorted (map (\<lambda>u. - totalMinutes u) (aggregateAppUsage cards))
     \<and> ((\<forall>a\<in>set (map fst (app_mentions cards)). \<not> is_array_index a) \<longrightarrow>
          aggregateAppUsage cards = applicationUsage_spec cards)"
proof -
  assume no_inherited: "\<forall>a\<in>set (map fst (app_mentions cards)). \<not> inherited a"
  have eq: "aggregateAppUsage cards = applicationUsage_by_key_order cards"
    using no_inherited by (rule aggregateAppUsage_by_key_order)
  have "sorted (map (\<lambda>u. - totalMinutes u) (applicationUsage_by_key_order cards))"
    unfolding applicationUsage_by_key_order_def by (rule sorted_sort_key)
  moreover have "applicationUsage_by_key_order cards = applicationUsage_spec cards"
    if "\<forall>a\<in>set (map fst (app_mentions cards)). \<not> is_array_index a"
  proof -
    have "own_key_order (first_seen (map fst (app_mentions cards))) =
        first_seen (map fst (app_mentions cards))"
      using that by (intro own_key_order_no_index) simp
    then show ?thesis
      by (simp add: applicationUsage_by_key_order_def applicationUsage_spec_def)
  qed
  ultimately show ?thesis
    using eq by simp
qed

theorem applicationUsage_own_key_order_witness:
  "list_all (\<lambda>a. \<not> inherited a \<and> \<not> is_array_index a)
     (map fst (app_mentions
        [card_with_apps 30 (Some ''A'') None, card_with_apps 45 (Some ''A'') (Some [])]))
   \<and> aggregateAppUsage
        [card_with_apps 30 (Some ''A'') None, card_with_apps 45 (Some ''A'') (Some [])] =
      [\<lparr>sessions = 2, totalMinutes = 75, app = ''A''\<rparr>]
   \<and> aggregateAppUsage
        [card_with_apps 30 (Some ''b'') None, card_with_apps 30 (Some ''7'') None] =
      [\<lparr>sessions = 1, totalMinutes = 30, app = ''7''\<rparr>,
       \<lparr>sessions = 1, totalMinutes = 30, app = ''b''\<rparr>]"
proof -
  let ?A = "[card_with_apps 30 (Some ''A'') None, card_with_apps 45 (Some ''A'') (Some [])]"
  let ?B = "[card_with_apps 30 (Some ''b'') None, card_with_apps 30 (Some ''7'') None]"
  have namesA: "map fst (app_mentions ?A) = [''A'', ''A'']"
    by code_simp
  have namesB: "map fst (app_mentions ?B) = [''b'', ''7'']"
    by code_simp
  have ok: "list_all (\<lambda>a. \<not> inherited a \<and> \<not> is_array_index a) [''A'', ''A'']"
    by code_simp
  have okB: "list_all (\<lambda>a. \<not> inherited a) [''b'', ''7'']"
    by code_simp
  have specA: "applicationUsage_spec ?A = [\<lparr>sessions = 2, totalMinutes = 75, app = ''A''\<rparr>]"
    by code_simp
  have keyB: "applicationUsage_by_key_order ?B =
      [\<lparr>sessions = 1, totalMinutes = 30, app = ''7''\<rparr>,
       \<lparr>sessions = 1, totalMinutes = 30, app = ''b''\<rparr>]"
    by code_simp
  have hA: "\<forall>a\<in>set (map fst (app_mentions ?A)). \<not> inherited a"
    unfolding namesA using ok by (simp add: list_all_iff)
  have iA: "\<forall>a\<in>set (map fst (app_mentions ?A)). \<not> is_array_index a"
    unfolding namesA using ok by (simp add: list_all_iff)
  have hB: "\<forall>a\<in>set (map fst (app_mentions ?B)). \<not> inherited a"
    unfolding namesB using okB by (simp add: list_all_iff)
  have "aggregateAppUsage ?A = applicationUsage_spec ?A"
    using applicationUsage_own_key_order [OF hA] iA by blast
  moreover have "aggregateAppUsage ?B = applicationUsage_by_key_order ?B"
    using applicationUsage_own_key_order [OF hB] by blast
  moreover have "list_all (\<lambda>a. \<not> inherited a \<and> \<not> is_array_index a)
      (map fst (app_mentions ?A))"
    unfolding namesA by (rule ok)
  ultimately show ?thesis
    by (simp only: specA keyB simp_thms)
qed

text \<open>
  The claim as worded, with ties in the order of first appearance, fails when a name is
  an array index: of \<open>b\<close> and \<open>7\<close>, thirty minutes each, \<open>b\<close> is named first and \<open>7\<close> is
  listed first.
\<close>

theorem applicationUsage_first_appearance_counterexample:
  "aggregateAppUsage [card_with_apps 30 (Some ''b'') None, card_with_apps 30 (Some ''7'') None]
   \<noteq> applicationUsage_spec
       [card_with_apps 30 (Some ''b'') None, card_with_apps 30 (Some ''7'') None]"
  by code_simp

text \<open>
  A card that names the same application in both slots counts two sessions and twice its
  minutes for it, whatever the other cards are, when no named application bears the name
  of an inherited property.
\<close>

lemma both_slots_count_twice:
  assumes "\<forall>a\<in>set (map fst (app_mentions (xs @ c # ys))). \<not> inherited a"
    and "named_apps c = [a, a]"
  shows "usage_of (app_mentions (xs @ c # ys)) a \<in> set (aggregateAppUsage (xs @ c # ys))"
    and "sessions (usage_of (app_mentions (xs @ c # ys)) a) =
      sessions (usage_of (app_mentions (xs @ ys)) a) + 2"
    and "totalMinutes (usage_of (app_mentions (xs @ c # ys)) a) =
      totalMinutes (usage_of (app_mentions (xs @ ys)) a)
        + 2 * calculateDuration (start_ts c) (end_ts c)"
proof -
  have "a \<in> set (map fst (app_mentions (xs @ c # ys)))"
    using assms(2) by (simp add: mentioned_apps_cases)
  then have "a \<in> set (own_key_order (first_seen (map fst (app_mentions (xs @ c # ys)))))"
    by (auto simp: own_key_order_def)
  then show "usage_of (app_mentions (xs @ c # ys)) a \<in> set (aggregateAppUsage (xs @ c # ys))"
    using aggregateAppUsage_by_key_order [OF assms(1)]
    by (simp add: applicationUsage_by_key_order_def)
  show "sessions (usage_of (app_mentions (xs @ c # ys)) a) =
      sessions (usage_of (app_mentions (xs @ ys)) a) + 2"
    using assms(2) by (simp add: usage_of_def app_mentions_def)
  show "totalMinutes (usage_of (app_mentions (xs @ c # ys)) a) =
      totalMinutes (usage_of (app_mentions (xs @ ys)) a)
        + 2 * calculateDuration (start_ts c) (end_ts c)"
    using assms(2) by (simp add: usage_of_def app_mentions_def)
qed

text \<open>
  C10. A card that names \<open>constructor\<close> in both slots: \<^verbatim>\<open>appStats['constructor']\<close> reads
  the inherited function, so no own property is created and the two \<^verbatim>\<open>+=\<close> change
  that function; the usage list has no entry for the application, where the claim has
  two sessions and sixty minutes.
\<close>

theorem both_slots_inherited_name_not_counted:
  "aggregateAppUsage [card_with_apps 30 (Some ''constructor'') (Some ''constructor'')] = []
   \<and> named_apps (card_with_apps 30 (Some ''constructor'') (Some ''constructor'')) =
       [''constructor'', ''constructor'']
   \<and> calculateDuration
        (start_ts (card_with_apps 30 (Some ''constructor'') (Some ''constructor'')))
        (end_ts (card_with_apps 30 (Some ''constructor'') (Some ''constructor''))) = 30"
proof -
  have "calculateDuration 0 (60 * 30) = 30"
    by (simp add: calculateDuration_div)
  moreover have "aggregateAppUsage
      [card_with_apps 30 (Some ''constructor'') (Some ''constructor'')] = []"
    by code_simp
  moreover have "named_apps (card_with_apps 30 (Some ''constructor'') (Some ''constructor'')) =
      [''constructor'', ''constructor'']"
    by code_simp
  ultimately show ?thesis
    by (simp add: card_with_apps_def card_from_to_def)
qed

section \<open>The sync decision\<close>

lemma isDayComplete_dayIsComplete: "isDayComplete d t = dayIsComplete d t"
  by (simp add: isDayComplete_def dayIsComplete_def Date_T04_def addDays_def boundary_instant_def
      MS_PER_DAY_def MS_PER_HOUR_def Let_def algebra_simps)

lemma no_timelineCards_iff:
  "filter (\<lambda>c. \<not> isFailed c)
     (sort_key start_ts (filter (\<lambda>row. day row = d \<and> (incl \<or> is_deleted row = 0)) rows)) = []
   \<longleftrightarrow> \<not> list_ex (qualifying incl d) rows"
  by (auto simp: filter_empty_conv list_ex_iff qualifying_def)

lemma no_journal_iff: "find (\<lambda>row. j_day row = d) jrows = None \<longleftrightarrow> \<not> list_ex (\<lambda>j. j_day j = d) jrows"
  by (auto simp: find_None_iff list_ex_iff)

text \<open>
  C1. For a day whose two queries return their rows and whose note can be written, the
  body of the loop ends as the decision table says, first match first: without force,
  with an existing note and the day complete, the day is skipped as complete; otherwise,
  with no qualifying card and no journal entry, it is skipped as empty, whatever the force
  flag and the completeness of the day; otherwise an existing note is updated; otherwise
  a note is created.
\<close>

theorem sync_decision_table:
  "db w = \<lparr>timeline_cards = Inr rows, journal_entries = Inr jrows\<rparr> \<Longrightarrow> \<not> write_fails w \<Longrightarrow>
   action_of (processDay w d) =
     Some (decision_table (FORCE w) (findExistingNoteByDay d (OUTPUT_DIR w))
             (dayIsComplete d (now w)) (hasAnyData (INCLUDE_DELETED w) d rows jrows))"
proof -
  assume tables: "db w = \<lparr>timeline_cards = Inr rows, journal_entries = Inr jrows\<rparr>"
    and writes: "\<not> write_fails w"
  have cards: "fetchTimelineCardsForDay (db w) d (INCLUDE_DELETED w) =
      Inr (sort_key start_ts
        (filter (\<lambda>row. day row = d \<and> (INCLUDE_DELETED w \<or> is_deleted row = 0)) rows))"
    by (simp add: fetchTimelineCardsForDay_def tables)
  have journal: "fetchJournalEntryForDay (db w) d = Inr (find (\<lambda>row. j_day row = d) jrows)"
    by (simp add: fetchJournalEntryForDay_def tables)
  show ?thesis
    unfolding processDay_def Let_def cards journal isDayComplete_dayIsComplete
    using writes
    by (simp add: decision_table_def hasAnyData_def action_of_def no_timelineCards_iff
        no_journal_iff)
qed

theorem sync_decision_table_witness:
  "action_of (processDay (example_world False None) 0) = Some create
   \<and> decision_table False False False True = create
   \<and> hasAnyData False 0 [card_with_apps 30 (Some ''Xcode'') None] []
   \<and> \<not> dayIsComplete 0 (6 * 3600000)"
proof -
  have tables: "db (example_world False None) =
      \<lparr>timeline_cards = Inr [card_with_apps 30 (Some ''Xcode'') None], journal_entries = Inr []\<rparr>"
    by (simp add: example_world_def)
  have writes: "\<not> write_fails (example_world False None)"
    by (simp add: example_world_def)
  have data: "hasAnyData False 0 [card_with_apps 30 (Some ''Xcode'') None] []"
    by code_simp
  have incomplete: "\<not> dayIsComplete 0 (6 * 3600000)"
    by (simp add: dayIsComplete_def boundary_instant_def)
  have table: "decision_table False False False True = create"
    by (simp add: decision_table_def)
  show ?thesis
    using sync_decision_table [OF tables writes, of 0] data incomplete table
    by (simp add: example_world_def findExistingNoteByDay_def)
qed

section \<open>The creation timestamp\<close>

lemma written_note_cases:
  assumes "written_note (processDay w d) = Some note"
  obtains cards journal where
    "note = generateMarkdownNote (now_created_at w) (now_updated_at w) d cards journal
       (if \<not> FORCE w \<and> findExistingNoteByDay d (OUTPUT_DIR w)
        then getExistingCreatedAt d (OUTPUT_DIR w) else None)"
    and "\<not> (\<not> FORCE w \<and> findExistingNoteByDay d (OUTPUT_DIR w) \<and> isDayComplete d (now w))"
  using assms
  by (auto simp: processDay_def written_note_def Let_def
      split: if_splits sum.splits day_result.splits)

lemma created_at_generateMarkdownNote:
  "created_at (front (generateMarkdownNote n1 n2 d cards journal existing)) =
     or_else existing n1 (\<lambda>s. s)"
  by (simp add: generateMarkdownNote_def generateFrontmatter_def Let_def)

lemma takeWhile_stop: "\<forall>x\<in>set xs. P x \<Longrightarrow> \<not> P y \<Longrightarrow> takeWhile P (xs @ y # ys) = xs"
  by (induction xs) simp_all

lemma ISO_chars:
  assumes "is_ISO_string ts"
  shows "ts \<noteq> []" and "\<forall>c\<in>set ts. is_value_char c \<and> \<not> is_space c"
proof -
  from assms have len: "length ts = 24"
    by (auto simp: is_ISO_string_def dest: list_all2_lengthD)
  then show "ts \<noteq> []" by auto
  have "c \<in> set ''0123456789-T:.Z''" if "c \<in> set ts" for c
  proof -
    from that obtain i where i: "i < length ts" "ts ! i = c"
      by (auto simp: in_set_conv_nth)
    let ?tpl = "''dddd-dd-ddTdd:dd:dd.dddZ''"
    from assms i have "if ?tpl ! i = CHR ''d'' then c \<in> set ''0123456789'' else c = ?tpl ! i"
      by (auto simp: is_ISO_string_def list_all2_conv_all_nth)
    moreover have "?tpl ! i \<in> set ?tpl"
      using i len by (intro nth_mem) simp
    ultimately show ?thesis
      by (auto split: if_splits)
  qed
  then show "\<forall>c\<in>set ts. is_value_char c \<and> \<not> is_space c"
    by (auto simp: is_value_char_def is_quote_def is_space_def)
qed

lemma no_literal_from_suffix:
  assumes none: "\<not> sublist ''created_at:'' pre"
    and ends: "pre \<noteq> []" "last pre = CHR 0x0A"
    and s: "suffix s pre" "s \<noteq> []"
  shows "\<not> prefix ''created_at:'' (s @ x)"
proof
  assume p: "prefix ''created_at:'' (s @ x)"
  show False
  proof (cases "length s \<ge> length ''created_at:''")
    case True
    with p have "prefix ''created_at:'' s"
      by (metis prefix_length_prefix prefixI)
    then have "sublist ''created_at:'' s"
      by (rule prefix_imp_sublist)
    with s(1) have "sublist ''created_at:'' pre"
      by (meson sublist_order.order_trans suffix_imp_sublist)
    with none show False ..
  next
    case False
    with p have "prefix s ''created_at:''"
      by (metis nat_le_linear prefix_length_prefix prefixI)
    then have "set s \<subseteq> set ''created_at:''"
      by (rule set_mono_prefix)
    moreover have "last s = CHR 0x0A"
      using s ends by (auto simp: suffix_def)
    moreover have "last s \<in> set s"
      using s(2) by simp
    ultimately show False by auto
  qed
qed

lemma match_created_at_skip:
  "(\<And>s. suffix s pre \<Longrightarrow> s \<noteq> [] \<Longrightarrow> \<not> prefix ''created_at:'' (s @ line)) \<Longrightarrow>
   match_created_at (pre @ line) = match_created_at line"
proof (induction pre)
  case Nil
  show ?case by simp
next
  case (Cons c cs)
  have "\<not> prefix ''created_at:'' ((c # cs) @ line)"
    by (rule Cons.prems) simp_all
  then have "match_created_at ((c # cs) @ line) = match_created_at (cs @ line)"
    by (simp only: append_Cons match_created_at.simps if_False option.simps)
  also have "\<dots> = match_created_at line"
  proof (rule Cons.IH)
    fix s
    assume "suffix s cs" "s \<noteq> []"
    then show "\<not> prefix ''created_at:'' (s @ line)"
      using Cons.prems [of s] by (simp add: suffix_ConsI)
  qed
  finally show ?case .
qed

lemma match_value_verbatim:
  assumes "ts \<noteq> []" "\<forall>c\<in>set ts. is_value_char c \<and> \<not> is_space c"
    and "v \<in> set [ts, [CHR 0x27] @ ts @ [CHR 0x27], [CHR 0x22] @ ts @ [CHR 0x22]]"
  shows "match_value (v @ CHR 0x0A # rest) = Some ts"
    and "\<not> is_space (hd (v @ CHR 0x0A # rest))"
proof -
  obtain a as where ts: "ts = a # as"
    using assms(1) by (cases ts) auto
  have a: "is_value_char a" "\<not> is_space a" "\<not> is_quote a"
    using assms(2) ts by (auto simp: is_value_char_def)
  have stop1: "takeWhile is_value_char (ts @ CHR 0x0A # rest) = ts"
    using assms(2) by (intro takeWhile_stop) (auto simp: is_value_char_def)
  have stop2: "takeWhile is_value_char (ts @ q # CHR 0x0A # rest) = ts" if "is_quote q" for q
    using assms(2) that by (intro takeWhile_stop) (auto simp: is_value_char_def)
  have q: "is_quote (CHR 0x27)" "is_quote (CHR 0x22)" "\<not> is_space (CHR 0x27)" "\<not> is_space (CHR 0x22)"
    by (simp_all add: is_quote_def is_space_def)
  from assms(3) consider "v = ts" | "v = CHR 0x27 # ts @ [CHR 0x27]" | "v = CHR 0x22 # ts @ [CHR 0x22]"
    by auto
  then show "match_value (v @ CHR 0x0A # rest) = Some ts"
  proof cases
    case 1
    have "match_value (a # as @ CHR 0x0A # rest) = Some ts"
      using a stop1 assms(1) by (simp add: match_value_def ts)
    with 1 show ?thesis by (simp add: ts)
  next
    case 2
    then show ?thesis
      using q stop2 [of "CHR 0x27"] assms(1) by (simp add: match_value_def)
  next
    case 3
    then show ?thesis
      using q stop2 [of "CHR 0x22"] assms(1) by (simp add: match_value_def)
  qed
  from assms(3) show "\<not> is_space (hd (v @ CHR 0x0A # rest))"
    using a q by (auto simp: ts)
qed

lemma match_created_at_line:
  assumes "ts \<noteq> []" "\<forall>c\<in>set ts. is_value_char c \<and> \<not> is_space c"
    and "v \<in> set [ts, [CHR 0x27] @ ts @ [CHR 0x27], [CHR 0x22] @ ts @ [CHR 0x22]]"
  shows "match_created_at (yaml_entry ''created_at'' v @ rest) = Some ts"
proof -
  let ?r = "v @ CHR 0x0A # rest"
  have found: "match_value ?r = Some ts" and first: "\<not> is_space (hd ?r)"
    using assms by (rule match_value_verbatim)+
  have "?r \<noteq> []" by simp
  then obtain b bs where r: "?r = b # bs"
    by (cases ?r) auto
  have sp: "is_space (CHR '' '')"
    by (simp add: is_space_def)
  have "takeWhile is_space (CHR '' '' # ?r) = [CHR '' '']"
    using first sp by (simp add: r)
  then have "match_after_spaces (length (takeWhile is_space (CHR '' '' # ?r))) (CHR '' '' # ?r) = Some ts"
    using found by simp
  moreover have "yaml_entry ''created_at'' v @ rest = ''created_at:'' @ CHR '' '' # ?r"
    by (simp add: yaml_entry_def)
  ultimately show ?thesis
    by simp
qed

lemma trim_no_space: "ts \<noteq> [] \<Longrightarrow> \<forall>c\<in>set ts. \<not> is_space c \<Longrightarrow> trim ts = ts"
proof -
  assume ne: "ts \<noteq> []" and ns: "\<forall>c\<in>set ts. \<not> is_space c"
  have "dropWhile is_space xs = xs" if "xs \<noteq> []" "\<forall>c\<in>set xs. \<not> is_space c" for xs
    using that by (cases xs) auto
  from this [of ts] this [of "rev ts"] ne ns show ?thesis
    by (simp add: trim_def)
qed

lemma block_before_ends:
  "block_before_created_at p fm \<noteq> []" "last (block_before_created_at p fm) = CHR 0x0A"
  by (simp_all add: block_before_created_at_def yaml_entry_def)

text \<open>
  The pattern reads back the timestamp of a note written from a front matter, when
  nothing ahead of the \<^verbatim>\<open>created_at\<close> line contains \<^verbatim>\<open>created_at:\<close>.
\<close>

lemma created_at_read_back:
  assumes begins: "prefix (block_to_created_at p old) t"
    and iso: "is_ISO_string (created_at old)"
    and verbatim: "writes_verbatim p (created_at old)"
    and only: "\<not> sublist ''created_at:'' (block_before_created_at p old)"
  shows "match_created_at t = Some (created_at old)"
    and "trim (created_at old) = created_at old"
proof -
  let ?pre = "block_before_created_at p old"
  let ?ts = "created_at old"
  from begins obtain rest where
    t_eq: "t = ?pre @ (yaml_entry ''created_at'' (write_string p ?ts) @ rest)"
    by (auto simp: prefix_def block_to_created_at_def)
  have chars: "?ts \<noteq> []" "\<forall>c\<in>set ?ts. is_value_char c \<and> \<not> is_space c"
    using iso by (rule ISO_chars)+
  have "match_created_at t =
      match_created_at (yaml_entry ''created_at'' (write_string p ?ts) @ rest)"
    unfolding t_eq
  proof (rule match_created_at_skip)
    fix s
    assume "suffix s ?pre" "s \<noteq> []"
    with only block_before_ends [of p old]
    show "\<not> prefix ''created_at:''
        (s @ yaml_entry ''created_at'' (write_string p ?ts) @ rest)"
      by (intro no_literal_from_suffix)
  qed
  also have "\<dots> = Some ?ts"
    using chars verbatim by (intro match_created_at_line) (simp_all add: writes_verbatim_def)
  finally show "match_created_at t = Some ?ts" .
  show "trim ?ts = ?ts"
    using chars by (intro trim_no_space) auto
qed

text \<open>
  C4, amended. When a day's note is written without force over an existing note that can
  be read, that was written from a front matter whose creation timestamp is an ISO
  instant, and in which nothing ahead of the \<^verbatim>\<open>created_at\<close> line contains
  \<^verbatim>\<open>created_at:\<close>, the creation timestamp written is the one recorded in the existing
  note, and the day is not complete; when force is supplied, the creation timestamp
  written is the current instant.
\<close>

theorem created_at_preserved_without_force:
  "written_note (processDay w d) = Some note \<Longrightarrow>
     (\<not> FORCE w \<and> OUTPUT_DIR w d = Some file \<and> readable file
        \<and> prefix (block_to_created_at p old) (content file)
        \<and> is_ISO_string (created_at old) \<and> writes_verbatim p (created_at old)
        \<and> \<not> sublist ''created_at:'' (block_before_created_at p old)
      \<longrightarrow> created_at (front note) = created_at old \<and> \<not> dayIsComplete d (now w))
     \<and> (FORCE w \<longrightarrow> created_at (front note) = now_created_at w)"
proof -
  assume "written_note (processDay w d) = Some note"
  then obtain cards journal where
    note_eq: "note = generateMarkdownNote (now_created_at w) (now_updated_at w) d cards journal
       (if \<not> FORCE w \<and> findExistingNoteByDay d (OUTPUT_DIR w)
        then getExistingCreatedAt d (OUTPUT_DIR w) else None)"
    and open_day:
      "\<not> (\<not> FORCE w \<and> findExistingNoteByDay d (OUTPUT_DIR w) \<and> isDayComplete d (now w))"
    by (rule written_note_cases)
  have "created_at (front note) = created_at old \<and> \<not> dayIsComplete d (now w)"
    if "\<not> FORCE w" "OUTPUT_DIR w d = Some file" "readable file"
      "prefix (block_to_created_at p old) (content file)"
      "is_ISO_string (created_at old)" "writes_verbatim p (created_at old)"
      "\<not> sublist ''created_at:'' (block_before_created_at p old)"
  proof -
    have "match_created_at (content file) = Some (created_at old)"
      and "trim (created_at old) = created_at old"
      using that(4-7) by (rule created_at_read_back)+
    then have "getExistingCreatedAt d (OUTPUT_DIR w) = Some (created_at old)"
      using that(2,3) by (simp add: getExistingCreatedAt_def)
    moreover have "created_at old \<noteq> []"
      using that(5) by (rule ISO_chars)
    ultimately have "created_at (front note) = created_at old"
      using that(1,2)
      by (simp add: note_eq created_at_generateMarkdownNote findExistingNoteByDay_def
          or_else_def)
    moreover have "\<not> dayIsComplete d (now w)"
      using open_day that(1,2)
      by (simp add: findExistingNoteByDay_def isDayComplete_dayIsComplete)
    ultimately show ?thesis ..
  qed
  moreover have "created_at (front note) = now_created_at w" if "FORCE w"
    using that by (simp add: note_eq created_at_generateMarkdownNote or_else_def)
  ultimately show ?thesis by blast
qed

theorem created_at_preserved_without_force_witness:
  "written_created_at
     (processDay
        (example_world False (Some \<lparr>readable = True, content = example_content [''Work'']\<rparr>))
        0) =
     Some (created_at (example_frontmatter [''Work'']))
   \<and> created_at (example_frontmatter [''Work'']) = ''2024-12-19T10:00:00.000Z''
   \<and> written_created_at
     (processDay
        (example_world True (Some \<lparr>readable = True, content = example_content [''Work'']\<rparr>))
        0) =
     Some ''2024-12-20T08:00:00.000Z''"
proof -
  let ?file = "\<lparr>readable = True, content = example_content [''Work'']\<rparr>"
  let ?old = "example_frontmatter [''Work'']"
  have begins: "prefix (block_to_created_at example_printing ?old) (content ?file)"
    by (simp add: example_content_def)
  have iso: "is_ISO_string (created_at ?old)"
    by code_simp
  have verbatim: "writes_verbatim example_printing (created_at ?old)"
    by code_simp
  have only: "\<not> sublist ''created_at:'' (block_before_created_at example_printing ?old)"
    by code_simp
  have recorded: "created_at ?old = ''2024-12-19T10:00:00.000Z''"
    by (simp add: example_frontmatter_def)
  have "written_note (processDay (example_world False (Some ?file)) 0) \<noteq> None"
    by code_simp
  then obtain n1 where n1: "written_note (processDay (example_world False (Some ?file)) 0) = Some n1"
    by blast
  have "written_note (processDay (example_world True (Some ?file)) 0) \<noteq> None"
    by code_simp
  then obtain n2 where n2: "written_note (processDay (example_world True (Some ?file)) 0) = Some n2"
    by blast
  have "created_at (front n1) = created_at ?old"
    using created_at_preserved_without_force
      [OF n1, of ?file example_printing ?old]
      begins iso verbatim only
    by (simp add: example_world_def)
  moreover have "created_at (front n2) = ''2024-12-20T08:00:00.000Z''"
    using created_at_preserved_without_force [OF n2]
    by (simp add: example_world_def)
  ultimately show ?thesis
    using recorded by (simp add: written_created_at_def n1 n2)
qed

text \<open>
  The claim as worded fails for a note that exists and cannot be read: the note was
  written from a front matter that records \<^verbatim>\<open>2024-12-19T10:00:00.000Z\<close>, the day is
  not complete, force is not supplied, and the note written over it carries the current
  instant \<^verbatim>\<open>2024-12-20T08:00:00.000Z\<close>.
\<close>

theorem created_at_not_preserved_counterexample:
  "written_created_at
     (processDay
        (example_world False (Some \<lparr>readable = False, content = example_content [''Work'']\<rparr>))
        0) =
     Some ''2024-12-20T08:00:00.000Z''
   \<and> prefix (block_to_created_at example_printing (example_frontmatter [''Work'']))
       (example_content [''Work''])
   \<and> created_at (example_frontmatter [''Work'']) = ''2024-12-19T10:00:00.000Z''
   \<and> action_of
     (processDay
        (example_world False (Some \<lparr>readable = False, content = example_content [''Work'']\<rparr>))
        0) =
     Some update"
  by code_simp

text \<open>
  What the amended claim leaves out: the pattern is not tied to the \<^verbatim>\<open>created_at\<close> line.
  A note with the category \<^verbatim>\<open>created_at: x\<close> has that text ahead of the line, and the
  note written over it, without force, carries \<^verbatim>\<open>x\<close> as its creation timestamp.
\<close>

lemma created_at_read_from_category:
  "written_created_at
     (processDay
        (example_world False
           (Some \<lparr>readable = True, content = example_content [''created_at: x'']\<rparr>))
        0) = Some ''x''
   \<and> created_at (example_frontmatter [''created_at: x'']) = ''2024-12-19T10:00:00.000Z''"
  by code_simp

text \<open>The pattern finds nothing in a text without \<^verbatim>\<open>created_at:\<close>.\<close>

lemma match_created_at_literal: "match_created_at s = Some g \<Longrightarrow> sublist ''created_at:'' s"
proof (induction s)
  case Nil
  then show ?case by simp
next
  case (Cons c cs)
  show ?case
  proof (cases "prefix ''created_at:'' (c # cs)")
    case True
    then show ?thesis by (rule prefix_imp_sublist)
  next
    case False
    with Cons.prems have "match_created_at cs = Some g"
      by (simp only: match_created_at.simps if_False option.simps)
    then have "sublist ''created_at:'' cs"
      by (rule Cons.IH)
    then show ?thesis
      by (simp add: sublist_Cons_right del: prefix_code)
  qed
qed

text \<open>
  C9. When a day's note is written, with or without force, over an existing note that
  cannot be read or in whose content the pattern finds nothing, the creation timestamp
  written is the current instant. A creation timestamp other than the current instant is
  written only without force, over a readable note in which the pattern finds a match,
  and it is the trimmed group of that match.
\<close>

theorem created_at_fresh_when_extraction_fails:
  "written_note (processDay w d) = Some note \<Longrightarrow>
     (OUTPUT_DIR w d = Some file \<and> (\<not> readable file \<or> match_created_at (content file) = None)
      \<longrightarrow> created_at (front note) = now_created_at w)
     \<and> (created_at (front note) \<noteq> now_created_at w
      \<longrightarrow> \<not> FORCE w \<and>
          (\<exists>f g. OUTPUT_DIR w d = Some f \<and> readable f \<and> match_created_at (content f) = Some g
             \<and> created_at (front note) = trim g))"
proof -
  assume "written_note (processDay w d) = Some note"
  then obtain cards journal where
    note_eq: "note = generateMarkdownNote (now_created_at w) (now_updated_at w) d cards journal
       (if \<not> FORCE w \<and> findExistingNoteByDay d (OUTPUT_DIR w)
        then getExistingCreatedAt d (OUTPUT_DIR w) else None)"
    by (rule written_note_cases)
  have fails: "created_at (front note) = now_created_at w"
    if "OUTPUT_DIR w d = Some file" "\<not> readable file \<or> match_created_at (content file) = None"
  proof -
    have "getExistingCreatedAt d (OUTPUT_DIR w) = None"
      using that by (auto simp: getExistingCreatedAt_def)
    then show ?thesis
      by (simp add: note_eq created_at_generateMarkdownNote or_else_def)
  qed
  have only: "\<not> FORCE w \<and>
      (\<exists>f g. OUTPUT_DIR w d = Some f \<and> readable f \<and> match_created_at (content f) = Some g
         \<and> created_at (front note) = trim g)"
    if "created_at (front note) \<noteq> now_created_at w"
    using that
    by (auto simp: note_eq created_at_generateMarkdownNote or_else_def getExistingCreatedAt_def
        split: if_splits option.splits)
  from fails only show ?thesis by blast
qed

theorem created_at_fresh_when_extraction_fails_witness:
  "written_created_at
     (processDay
        (example_world False (Some \<lparr>readable = True, content = example_content_without\<rparr>)) 0) =
     Some ''2024-12-20T08:00:00.000Z''
   \<and> match_created_at example_content_without = None"
proof -
  let ?file = "\<lparr>readable = True, content = example_content_without\<rparr>"
  have none: "match_created_at (content ?file) = None"
    by code_simp
  have "written_note (processDay (example_world False (Some ?file)) 0) \<noteq> None"
    by code_simp
  then obtain n where n: "written_note (processDay (example_world False (Some ?file)) 0) = Some n"
    by blast
  have "created_at (front n) = ''2024-12-20T08:00:00.000Z''"
    using created_at_fresh_when_extraction_fails [OF n, of ?file] none
    by (simp add: example_world_def)
  then show ?thesis
    using none by (simp add: written_created_at_def n)
qed

section \<open>Metadata that is absent or does not parse\<close>

lemma parseMetadata_unusable:
  "unusable m \<Longrightarrow> snd (parseMetadata m) = \<lparr>distractions = [], appSites = no_app_sites\<rparr>"
  by (cases m) (simp_all add: unusable_def parseMetadata_def)

lemma as_if_absent_fields [simp]:
  "day (as_if_absent c) = day c" "is_deleted (as_if_absent c) = is_deleted c"
  "card_start (as_if_absent c) = card_start c" "card_end (as_if_absent c) = card_end c"
  "start_ts (as_if_absent c) = start_ts c" "end_ts (as_if_absent c) = end_ts c"
  "title (as_if_absent c) = title c" "category (as_if_absent c) = category c"
  "subcategory (as_if_absent c) = subcategory c"
  by (simp_all add: as_if_absent_def)

lemma parseMetadata_as_if_absent [simp]:
  "snd (parseMetadata (metadata (as_if_absent c))) = snd (parseMetadata (metadata c))"
  by (cases "metadata c") (simp_all add: as_if_absent_def unusable_def parseMetadata_def)

lemma named_apps_as_if_absent [simp]: "named_apps (as_if_absent c) = named_apps c"
  by (cases "metadata c") (simp_all add: as_if_absent_def unusable_def named_apps_def)

lemma app_mentions_as_if_absent: "app_mentions (map as_if_absent cards) = app_mentions cards"
  by (simp add: app_mentions_def comp_def)

lemma aggregateAppUsage_as_if_absent:
  "aggregateAppUsage (map as_if_absent cards) = aggregateAppUsage cards"
  by (simp add: aggregateAppUsage_app_mentions app_mentions_as_if_absent)

lemma extractAllDistractions_concat:
  "extractAllDistractions cards =
     concat (map (\<lambda>c. map (\<lambda>d. \<lparr>entry = d, cardStart = card_start c, cardEnd = card_end c\<rparr>)
                        (distractions (snd (parseMetadata (metadata c))))) cards)"
proof -
  have "foldl (\<lambda>allDistractions c.
        let metadata = snd (parseMetadata (metadata c))
        in if distractions metadata \<noteq> []
           then allDistractions @
             map (\<lambda>d. \<lparr>entry = d, cardStart = card_start c, cardEnd = card_end c\<rparr>)
               (distractions metadata)
           else allDistractions) acc cards =
      acc @ concat (map (\<lambda>c. map (\<lambda>d. \<lparr>entry = d, cardStart = card_start c, cardEnd = card_end c\<rparr>)
                        (distractions (snd (parseMetadata (metadata c))))) cards)" for acc
    by (induction cards arbitrary: acc) (simp_all add: Let_def)
  then show ?thesis
    by (simp add: extractAllDistractions_def)
qed

lemma extractAllDistractions_as_if_absent:
  "extractAllDistractions (map as_if_absent cards) = extractAllDistractions cards"
  by (simp add: extractAllDistractions_concat comp_def)

lemma generateMarkdownNote_as_if_absent:
  "generateMarkdownNote n1 n2 d (map as_if_absent cards) journal existing =
     generateMarkdownNote n1 n2 d cards journal existing"
  by (simp add: generateMarkdownNote_def generateFrontmatter_def Let_def
      aggregateAppUsage_as_if_absent extractAllDistractions_as_if_absent
      calculateTotalMinutes_sum_list extractCategories_def comp_def)

lemma isFailed_as_if_absent [simp]: "isFailed (as_if_absent c) = isFailed c"
  by (simp add: isFailed_def title_includes_def)

lemma timelineCards_as_if_absent:
  "filter (\<lambda>c. \<not> isFailed c)
     (sort_key start_ts (filter (\<lambda>row. day row = d \<and> (incl \<or> is_deleted row = 0))
        (map as_if_absent rows))) =
   map as_if_absent
     (filter (\<lambda>c. \<not> isFailed c)
        (sort_key start_ts (filter (\<lambda>row. day row = d \<and> (incl \<or> is_deleted row = 0)) rows)))"
  by (simp add: filter_map comp_def sort_key_map)

lemma processDay_as_if_absent:
  "processDay (w\<lparr>db := \<lparr>timeline_cards = Inr (map as_if_absent rows), journal_entries = js\<rparr>\<rparr>) d =
   processDay (w\<lparr>db := \<lparr>timeline_cards = Inr rows, journal_entries = js\<rparr>\<rparr>) d"
  by (simp add: processDay_def fetchTimelineCardsForDay_def fetchJournalEntryForDay_def Let_def
      timelineCards_as_if_absent generateMarkdownNote_as_if_absent
      split: sum.splits)

lemma as_if_absent_unusable:
  "unusable (metadata c) \<Longrightarrow>
   map as_if_absent (xs @ c # ys) = map as_if_absent (xs @ c\<lparr>metadata := NoMetadata\<rparr> # ys)"
  by (simp add: as_if_absent_def unusable_def)

text \<open>
  C8. For a card whose metadata is absent or does not parse, \<open>parseMetadata\<close> returns
  no distractions and no application, and raises nothing; metadata that does not parse
  writes one warning, absent metadata none. The application usage and the distraction
  log of any list of cards with that card in it, and the way the day ends (the note
  written included), are those of the same cards with the metadata of that card absent.
\<close>

theorem unusable_metadata_as_absent:
  "unusable (metadata c) \<Longrightarrow>
     snd (parseMetadata (metadata c)) = \<lparr>distractions = [], appSites = no_app_sites\<rparr>
     \<and> named_apps c = []
     \<and> fst (parseMetadata NoMetadata) = []
     \<and> fst (parseMetadata (Unparsable message)) = [''Failed to parse metadata: '' @ message]
     \<and> aggregateAppUsage (xs @ c # ys) = aggregateAppUsage (xs @ c\<lparr>metadata := NoMetadata\<rparr> # ys)
     \<and> extractAllDistractions (xs @ c # ys) =
         extractAllDistractions (xs @ c\<lparr>metadata := NoMetadata\<rparr> # ys)
     \<and> processDay (w\<lparr>db := \<lparr>timeline_cards = Inr (xs @ c # ys), journal_entries = js\<rparr>\<rparr>) d =
         processDay
           (w\<lparr>db := \<lparr>timeline_cards = Inr (xs @ c\<lparr>metadata := NoMetadata\<rparr> # ys),
                     journal_entries = js\<rparr>\<rparr>) d"
proof -
  assume bad: "unusable (metadata c)"
  let ?c' = "c\<lparr>metadata := NoMetadata\<rparr>"
  have same: "map as_if_absent (xs @ c # ys) = map as_if_absent (xs @ ?c' # ys)"
    using bad by (rule as_if_absent_unusable)
  have "snd (parseMetadata (metadata c)) = \<lparr>distractions = [], appSites = no_app_sites\<rparr>"
    using bad by (rule parseMetadata_unusable)
  moreover have "named_apps c = []"
    using bad by (cases "metadata c") (simp_all add: unusable_def named_apps_def)
  moreover have "fst (parseMetadata NoMetadata) = []"
    and "fst (parseMetadata (Unparsable message)) = [''Failed to parse metadata: '' @ message]"
    by (simp_all add: parseMetadata_def)
  moreover have "aggregateAppUsage (xs @ c # ys) = aggregateAppUsage (xs @ ?c' # ys)"
    using aggregateAppUsage_as_if_absent [of "xs @ c # ys"]
      aggregateAppUsage_as_if_absent [of "xs @ ?c' # ys"]
    by (simp only: same)
  moreover have "extractAllDistractions (xs @ c # ys) = extractAllDistractions (xs @ ?c' # ys)"
    using extractAllDistractions_as_if_absent [of "xs @ c # ys"]
      extractAllDistractions_as_if_absent [of "xs @ ?c' # ys"]
    by (simp only: same)
  moreover have
    "processDay (w\<lparr>db := \<lparr>timeline_cards = Inr (xs @ c # ys), journal_entries = js\<rparr>\<rparr>) d =
     processDay (w\<lparr>db := \<lparr>timeline_cards = Inr (xs @ ?c' # ys), journal_entries = js\<rparr>\<rparr>) d"
    using processDay_as_if_absent [where w = w and rows = "xs @ c # ys" and js = js and d = d]
      processDay_as_if_absent [where w = w and rows = "xs @ ?c' # ys" and js = js and d = d]
    by (simp only: same)
  ultimately show ?thesis by blast
qed

theorem unusable_metadata_as_absent_witness:
  "unusable (metadata card_unparsable)
   \<and> aggregateAppUsage [card_with_apps 30 (Some ''Xcode'') None, card_unparsable] =
       [\<lparr>sessions = 1, totalMinutes = 30, app = ''Xcode''\<rparr>]
   \<and> action_of
       (processDay
          ((example_world False None)
             \<lparr>db := \<lparr>timeline_cards =
                        Inr [card_with_apps 30 (Some ''Xcode'') None, card_unparsable],
                      journal_entries = Inr []\<rparr>\<rparr>) 0) = Some create
   \<and> fst (parseMetadata (metadata card_unparsable)) =
       [''Failed to parse metadata: Unexpected end of JSON input'']"
proof -
  let ?x = "card_with_apps 30 (Some ''Xcode'') None"
  let ?c' = "card_unparsable\<lparr>metadata := NoMetadata\<rparr>"
  have bad: "unusable (metadata card_unparsable)"
    by (simp add: card_unparsable_def unusable_def)
  have usage: "aggregateAppUsage ([?x] @ ?c' # []) =
      [\<lparr>sessions = 1, totalMinutes = 30, app = ''Xcode''\<rparr>]"
    by code_simp
  have ends: "action_of
      (processDay
         ((example_world False None)
            \<lparr>db := \<lparr>timeline_cards = Inr ([?x] @ ?c' # []), journal_entries = Inr []\<rparr>\<rparr>) 0) =
      Some create"
    by code_simp
  have warns: "fst (parseMetadata (metadata card_unparsable)) =
      [''Failed to parse metadata: Unexpected end of JSON input'']"
    by (simp add: card_unparsable_def parseMetadata_def)
  show ?thesis
    using unusable_metadata_as_absent
      [OF bad, where xs = "[?x]" and ys = "[]" and w = "example_world False None"
        and js = "Inr []" and d = 0]
      bad usage ends warns
    by simp
qed

end
